theory Spec2Isabelle
  imports Main "HOL-Library.Word"
begin

section \<open>Dialects and errors\<close>

text \<open>
  The module under verification is \<^verbatim>\<open>prefect/orion/utilities/database.py\<close>.
  Every hook receives a SQLAlchemy dialect object and only ever reads its \<^verbatim>\<open>name\<close>,
  which it compares with the literals \<^verbatim>\<open>"postgresql"\<close> and \<^verbatim>\<open>"sqlite"\<close>.
  A dialect is therefore modelled by its name; the two dialects the module resolves
  (\<^verbatim>\<open>get_dialect\<close>) are given names of their own.
\<close>

datatype dialect = Dialect (name: string)

abbreviation postgresql :: dialect where
  "postgresql \<equiv> Dialect ''postgresql''"

abbreviation sqlite :: dialect where
  "sqlite \<equiv> Dialect ''sqlite''"

text \<open>
  Python exceptions raised by the module or by the library calls it makes are values;
  a function that can raise returns \<open>error + 'a\<close>, with \<open>Inl\<close> for the exception.
\<close>

datatype error =
    ValueError string
  | TypeError string
  | OverflowError string
  | InvalidRequestError string
  | ProgrammingError string
  | ValidationError

section \<open>Timestamp\<close>

text \<open>
  A \<^verbatim>\<open>datetime\<close> is a wall-clock reading together with an optional timezone. The reading
  is counted in microseconds from \<^verbatim>\<open>datetime.min\<close>, 0001-01-01 00:00:00; \<open>tzinfo\<close> is \<open>None\<close>
  for a naive value and otherwise holds the UTC offset (in microseconds) that the attached
  timezone has at that reading. Python represents the readings from \<^verbatim>\<open>datetime.min\<close> to
  \<^verbatim>\<open>datetime.max\<close>, 9999-12-31 23:59:59.999999, which is 3652059 days less one microsecond
  after \<^verbatim>\<open>datetime.min\<close>.
\<close>

record datetime =
  wall :: int
  tzinfo :: "int option"

definition datetime_max :: int where
  "datetime_max = 3652059 * 86400000000 - 1"

definition representable :: "int \<Rightarrow> bool" where
  "representable w \<longleftrightarrow> 0 \<le> w \<and> w \<le> datetime_max"

text \<open>
  \<^verbatim>\<open>pendulum.instance(dt)\<close> keeps the timezone of an aware value and attaches UTC to a naive
  one (\<^verbatim>\<open>tz = dt.tzinfo or tz\<close>, with \<^verbatim>\<open>tz=UTC\<close> the default).
  \<^verbatim>\<open>in_timezone("UTC")\<close> re-expresses the same instant with offset zero; when the reading
  in UTC is not representable the conversion raises \<^verbatim>\<open>OverflowError\<close>.
\<close>

definition pendulum_instance :: "datetime \<Rightarrow> datetime" where
  "pendulum_instance dt =
     (case tzinfo dt of None \<Rightarrow> dt\<lparr>tzinfo := Some 0\<rparr> | Some _ \<Rightarrow> dt)"

definition in_timezone_utc :: "datetime \<Rightarrow> error + datetime" where
  "in_timezone_utc dt =
     (case tzinfo dt of
        None \<Rightarrow> Inr (dt\<lparr>tzinfo := Some 0\<rparr>)
      | Some off \<Rightarrow>
          if representable (wall dt - off)
          then Inr \<lparr>wall = wall dt - off, tzinfo = Some 0\<rparr>
          else Inl (OverflowError ''date value out of range''))"

text \<open>
  \<^verbatim>\<open>
  def process_bind_param(self, value, dialect):
      if value is None:
          return None
      else:
          if value.tzinfo is None:
              raise ValueError("Timestamps must have a timezone.")
          elif dialect.name == "sqlite":
              return pendulum.instance(value).in_timezone("UTC")
          else:
              return value
  \<close>
\<close>

definition Timestamp_process_bind_param ::
  "datetime option \<Rightarrow> dialect \<Rightarrow> error + datetime option" where
  "Timestamp_process_bind_param value d =
     (case value of
        None \<Rightarrow> Inr None
      | Some v \<Rightarrow>
          if tzinfo v = None then Inl (ValueError ''Timestamps must have a timezone.'')
          else if name d = ''sqlite''
          then (case in_timezone_utc (pendulum_instance v) of
                  Inl e \<Rightarrow> Inl e
                | Inr r \<Rightarrow> Inr (Some r))
          else Inr (Some v))"

text \<open>
  \<^verbatim>\<open>
  def process_result_value(self, value, dialect):
      if value is not None:
          return pendulum.instance(value).in_timezone("utc")
  \<close>
  A Python function that falls off its end returns \<^verbatim>\<open>None\<close>.
\<close>

definition Timestamp_process_result_value ::
  "datetime option \<Rightarrow> dialect \<Rightarrow> error + datetime option" where
  "Timestamp_process_result_value value d =
     (case value of
        Some v \<Rightarrow>
          (case in_timezone_utc (pendulum_instance v) of
             Inl e \<Rightarrow> Inl e
           | Inr r \<Rightarrow> Inr (Some r))
      | None \<Rightarrow> Inr None)"

section \<open>UUID\<close>

text \<open>
  A \<^verbatim>\<open>uuid.UUID\<close> object is determined by its 128-bit integer. Text is a list of
  characters, each standing for one code point (below 256). The two library operations the
  adapter relies on are \<^verbatim>\<open>str(u)\<close> and the constructor \<^verbatim>\<open>uuid.UUID(text)\<close>; both belong to
  the Python standard library and are transcribed here from its \<^verbatim>\<open>uuid\<close> module.
\<close>

type_synonym uuid = "128 word"

definition hexdigit :: "nat \<Rightarrow> char" where
  "hexdigit n = ''0123456789abcdef'' ! n"

text \<open>\<^verbatim>\<open>'%0kx' % n\<close> for a number below \<open>16 ^ k\<close>: exactly \<open>k\<close> lower-case digits.\<close>

fun format_hex :: "nat \<Rightarrow> nat \<Rightarrow> string" where
  "format_hex 0 n = []"
| "format_hex (Suc k) n = format_hex k (n div 16) @ [hexdigit (n mod 16)]"

text \<open>
  \<^verbatim>\<open>
  def __str__(self):
      hex = '%032x' % self.int
      return '%s-%s-%s-%s-%s' % (
          hex[:8], hex[8:12], hex[12:16], hex[16:20], hex[20:])
  \<close>
\<close>

definition uuid_str :: "uuid \<Rightarrow> string" where
  "uuid_str u =
     (let hex = format_hex 32 (unat u)
      in take 8 hex @ ''-'' @ take 4 (drop 8 hex) @ ''-'' @ take 4 (drop 12 hex) @ ''-''
         @ take 4 (drop 16 hex) @ ''-'' @ drop 20 hex)"

text \<open>
  \<^verbatim>\<open>s.replace(old, '')\<close>: every occurrence of \<open>old\<close> is deleted, scanning from the left
  and continuing after each deleted occurrence.
\<close>

function str_remove :: "string \<Rightarrow> string \<Rightarrow> string" where
  "str_remove old [] = []"
| "str_remove old (c # cs) =
     (if old \<noteq> [] \<and> take (length old) (c # cs) = old
      then str_remove old (drop (length old) (c # cs))
      else c # str_remove old cs)"
  by pat_completeness auto
termination
  by (relation "measure (\<lambda>(old, s). length s)") (auto simp: Suc_le_eq)

text \<open>\<^verbatim>\<open>s.strip(chars)\<close>: leading and trailing characters that occur in \<open>chars\<close> are dropped.\<close>

definition str_strip :: "string \<Rightarrow> string \<Rightarrow> string" where
  "str_strip chars s =
     rev (dropWhile (\<lambda>c. c \<in> set chars) (rev (dropWhile (\<lambda>c. c \<in> set chars) s)))"

text \<open>
  \<^verbatim>\<open>int(text, 16)\<close> on a \<^verbatim>\<open>str\<close>. Surrounding whitespace is skipped, then an optional sign,
  then an optional \<^verbatim>\<open>0x\<close> or \<^verbatim>\<open>0X\<close> prefix (one underscore may follow it), then hexadecimal
  digits in either case with single underscores allowed between digits; at least one digit
  is required and nothing else may follow but whitespace. Anything else raises
  \<^verbatim>\<open>ValueError\<close>, here \<open>None\<close>.
\<close>

definition int_space :: "char \<Rightarrow> bool" where
  "int_space c \<longleftrightarrow> c \<in> set [CHR 0x09, CHR 0x0A, CHR 0x0B, CHR 0x0C, CHR 0x0D, CHR '' '',
                                CHR 0x85, CHR 0xA0]"

definition digit_value :: "char \<Rightarrow> nat option" where
  "digit_value c =
     (let n = of_char c :: nat in
      if 48 \<le> n \<and> n \<le> 57 then Some (n - 48)
      else if 97 \<le> n \<and> n \<le> 102 then Some (n - 87)
      else if 65 \<le> n \<and> n \<le> 70 then Some (n - 55)
      else None)"

text \<open>
  The digit scan: \<open>acc\<close> is the value so far, \<open>n\<close> the number of digits read and \<open>us\<close> tells
  whether the previous character was an underscore. It returns the value, the digit count
  and the unread rest, or \<open>None\<close> for a doubled or trailing underscore.
\<close>

fun scan_digits :: "nat \<Rightarrow> nat \<Rightarrow> bool \<Rightarrow> string \<Rightarrow> (nat \<times> nat \<times> string) option" where
  "scan_digits acc n us [] = (if us then None else Some (acc, n, []))"
| "scan_digits acc n us (c # cs) =
     (if c = CHR ''_'' then (if us then None else scan_digits acc n True cs)
      else case digit_value c of
             Some d \<Rightarrow> scan_digits (acc * 16 + d) (Suc n) False cs
           | None \<Rightarrow> if us then None else Some (acc, n, c # cs))"

definition skip_sign :: "string \<Rightarrow> int \<times> string" where
  "skip_sign s =
     (case s of
        c # cs \<Rightarrow> if c = CHR ''+'' then (1, cs) else if c = CHR ''-'' then (-1, cs) else (1, s)
      | [] \<Rightarrow> (1, s))"

definition skip_prefix :: "string \<Rightarrow> string" where
  "skip_prefix s =
     (case s of
        z # x # cs \<Rightarrow>
          if z = CHR ''0'' \<and> (x = CHR ''x'' \<or> x = CHR ''X'')
          then (case cs of u # cs' \<Rightarrow> if u = CHR ''_'' then cs' else cs | [] \<Rightarrow> cs)
          else s
      | _ \<Rightarrow> s)"

definition int_16 :: "string \<Rightarrow> int option" where
  "int_16 s =
     (let (sign, s1) = skip_sign (dropWhile int_space s);
          s2 = skip_prefix s1
      in if take 1 s2 = ''_'' then None
         else case scan_digits 0 0 False s2 of
                None \<Rightarrow> None
              | Some (v, n, rest) \<Rightarrow>
                  if n = 0 then None
                  else if dropWhile int_space rest = [] then Some (sign * int v)
                  else None)"

text \<open>
  \<^verbatim>\<open>
  hex = hex.replace('urn:', '').replace('uuid:', '')
  hex = hex.strip('{}').replace('-', '')
  if len(hex) != 32:
      raise ValueError('badly formed hexadecimal UUID string')
  int = int_(hex, 16)
  ...
  if not 0 <= int < 1<<128:
      raise ValueError('int is out of range for a 128-bit UUID')
  \<close>
  The message of the error that \<^verbatim>\<open>int\<close> raises also quotes the offending text; the model
  keeps its fixed part.
\<close>

definition UUID_init :: "string \<Rightarrow> error + uuid" where
  "UUID_init text =
     (let hex = str_remove ''uuid:'' (str_remove ''urn:'' text);
          hex = str_remove ''-'' (str_strip ''{}'' hex)
      in if length hex \<noteq> 32 then Inl (ValueError ''badly formed hexadecimal UUID string'')
         else case int_16 hex of
                None \<Rightarrow> Inl (ValueError ''invalid literal for int() with base 16'')
              | Some i \<Rightarrow>
                  if \<not> (0 \<le> i \<and> i < 2 ^ 128)
                  then Inl (ValueError ''int is out of range for a 128-bit UUID'')
                  else Inr (of_int i))"

text \<open>
  The values the adapter meets: a \<^verbatim>\<open>uuid.UUID\<close> object or text. \<^verbatim>\<open>str(value)\<close> renders the
  former and is the identity on the latter.
\<close>

datatype uuid_value = UUID_obj uuid | Text string

fun py_str :: "uuid_value \<Rightarrow> string" where
  "py_str (UUID_obj u) = uuid_str u"
| "py_str (Text s) = s"

text \<open>
  \<^verbatim>\<open>
  def process_bind_param(self, value, dialect):
      if value is None:
          return None
      elif dialect.name == "postgresql":
          return str(value)
      elif isinstance(value, uuid.UUID):
          return str(value)
      else:
          return str(uuid.UUID(value))
  \<close>
\<close>

definition UUID_process_bind_param ::
  "uuid_value option \<Rightarrow> dialect \<Rightarrow> error + string option" where
  "UUID_process_bind_param value d =
     (case value of
        None \<Rightarrow> Inr None
      | Some v \<Rightarrow>
          if name d = ''postgresql'' then Inr (Some (py_str v))
          else (case v of
                  UUID_obj u \<Rightarrow> Inr (Some (py_str v))
                | Text s \<Rightarrow>
                    (case UUID_init s of
                       Inl e \<Rightarrow> Inl e
                     | Inr u \<Rightarrow> Inr (Some (uuid_str u)))))"

text \<open>
  \<^verbatim>\<open>
  def process_result_value(self, value, dialect):
      if value is None:
          return value
      else:
          if not isinstance(value, uuid.UUID):
              value = uuid.UUID(value)
          return value
  \<close>
\<close>

definition UUID_process_result_value ::
  "uuid_value option \<Rightarrow> dialect \<Rightarrow> error + uuid option" where
  "UUID_process_result_value value d =
     (case value of
        None \<Rightarrow> Inr None
      | Some (UUID_obj u) \<Rightarrow> Inr (Some u)
      | Some (Text s) \<Rightarrow>
          (case UUID_init s of Inl e \<Rightarrow> Inl e | Inr u \<Rightarrow> Inr (Some u)))"

text \<open>
  Encoding followed by decoding. The column stores the bound text and hands the same text
  back (\<^verbatim>\<open>CHAR(36)\<close> on sqlite; on postgresql the native type, read back as its canonical
  text).
\<close>

definition UUID_store_and_load :: "uuid_value option \<Rightarrow> dialect \<Rightarrow> error + uuid option" where
  "UUID_store_and_load value d =
     (case UUID_process_bind_param value d of
        Inl e \<Rightarrow> Inl e
      | Inr stored \<Rightarrow> UUID_process_result_value (map_option Text stored) d)"

section \<open>JSON values\<close>

text \<open>
  JSON-compatible Python values: \<^verbatim>\<open>None\<close>, \<^verbatim>\<open>bool\<close>, \<^verbatim>\<open>int\<close>, \<^verbatim>\<open>str\<close>, \<^verbatim>\<open>list\<close> and \<^verbatim>\<open>dict\<close>
  (an association list, in insertion order, with distinct keys). The same type stands for
  the documents stored in a JSON column. Floating-point numbers are left out.
\<close>

datatype json =
    JNull
  | JBool bool
  | JInt int
  | JStr string
  | JArr "json list"
  | JObj "(string \<times> json) list"

fun is_container :: "json \<Rightarrow> bool" where
  "is_container (JArr _) = True"
| "is_container (JObj _) = True"
| "is_container _ = False"

fun is_str :: "json \<Rightarrow> bool" where
  "is_str (JStr _) = True"
| "is_str _ = False"

fun the_str :: "json \<Rightarrow> string" where
  "the_str (JStr s) = s"
| "the_str _ = []"

section \<open>Pydantic\<close>

text \<open>
  The adapter is parameterised by a pydantic type. \<^verbatim>\<open>pydantic.parse_obj_as(type, value)\<close>
  is the parameter \<open>parse\<close> (it raises a validation error or returns a typed value) and
  \<^verbatim>\<open>json.loads(json.dumps(value, default=pydantic_encoder))\<close> is the parameter \<open>encode\<close>.
  \<^verbatim>\<open>
  def process_bind_param(self, value, dialect):
      if value is None:
          return None
      value = pydantic.parse_obj_as(self._pydantic_type, value)
      return json.loads(json.dumps(value, default=pydantic.json.pydantic_encoder))

  def process_result_value(self, value, dialect):
      if value is not None:
          return pydantic.parse_obj_as(self._pydantic_type, value)
  \<close>
\<close>

definition Pydantic_process_bind_param ::
  "('a \<Rightarrow> error + 'v) \<Rightarrow> ('v \<Rightarrow> json) \<Rightarrow> 'a option \<Rightarrow> dialect \<Rightarrow> error + json option" where
  "Pydantic_process_bind_param parse encode value d =
     (case value of
        None \<Rightarrow> Inr None
      | Some v \<Rightarrow> (case parse v of Inl e \<Rightarrow> Inl e | Inr x \<Rightarrow> Inr (Some (encode x))))"

definition Pydantic_process_result_value ::
  "(json \<Rightarrow> error + 'v) \<Rightarrow> json option \<Rightarrow> dialect \<Rightarrow> error + 'v option" where
  "Pydantic_process_result_value parse value d =
     (case value of
        Some v \<Rightarrow> (case parse v of Inl e \<Rightarrow> Inl e | Inr x \<Rightarrow> Inr (Some x))
      | None \<Rightarrow> Inr None)"

section \<open>JSON predicates\<close>

subsection \<open>The function elements and their constructors\<close>

text \<open>
  A \<open>column\<close> names the JSON expression a predicate is applied to. The three classes
  \<^verbatim>\<open>json_contains\<close>, \<^verbatim>\<open>json_has_any_key\<close> and \<^verbatim>\<open>json_has_all_keys\<close> each hold that
  expression and a list of values. The constructors of the two key predicates check
  \<^verbatim>\<open>all(isinstance(v, str) for v in values)\<close> and raise \<^verbatim>\<open>ValueError\<close> otherwise, so the
  values of a constructed key predicate are strings.
\<close>

type_synonym column = string

datatype element =
    Json_contains column "json list"
  | Json_has_any_key column "string list"
  | Json_has_all_keys column "string list"

definition json_contains :: "column \<Rightarrow> json list \<Rightarrow> error + element" where
  "json_contains json_expr values = Inr (Json_contains json_expr values)"

definition json_has_any_key :: "column \<Rightarrow> json list \<Rightarrow> error + element" where
  "json_has_any_key json_expr values =
     (if \<not> list_all is_str values
      then Inl (ValueError ''json_has_any_key values must be strings'')
      else Inr (Json_has_any_key json_expr (map the_str values)))"

definition json_has_all_keys :: "column \<Rightarrow> json list \<Rightarrow> error + element" where
  "json_has_all_keys json_expr values =
     (if \<not> list_all is_str values
      then Inl (ValueError ''json_has_any_key values must be strings'')
      else Inr (Json_has_all_keys json_expr (map the_str values)))"

subsection \<open>The SQL the compilers emit\<close>

text \<open>
  The compilers hand SQLAlchemy expressions to \<^verbatim>\<open>compiler.process\<close>. The expressions this
  module builds are:
  \<^item> \<open>SqlTrue\<close>, the literal \<^verbatim>\<open>True\<close>, and \<open>SqlAnd\<close>, \<^verbatim>\<open>sa.and_(...)\<close>;
  \<^item> \<open>ExistsJsonEach e c\<close>, which is
    \<^verbatim>\<open>sa.select(1).select_from(json_each(e)).filter(c).exists()\<close>, where the filter \<open>c\<close> is
    \<^verbatim>\<open>json_each.value == v\<close> (\<open>ValueEq v\<close>, for a Python scalar \<open>v\<close>) or
    \<^verbatim>\<open>json_each.value.in_(values)\<close> (\<open>ValueIn values\<close>);
  \<^item> \<open>JsonbContains e vs\<close>, \<open>JsonbHasAny e a\<close> and \<open>JsonbHasAll e a\<close>, the operators
    \<^verbatim>\<open>@>\<close>, \<^verbatim>\<open>?|\<close> and \<^verbatim>\<open>?&\<close> of \<^verbatim>\<open>postgresql.JSONB\<close> applied to \<open>e\<close>; the right operand
    of \<^verbatim>\<open>@>\<close> is the Python list \<open>vs\<close> bound as one JSONB value, and the right operand of
    the other two is an array expression: \<open>PgArray ks\<close> is \<^verbatim>\<open>postgresql.array(ks)\<close>, rendered
    \<^verbatim>\<open>ARRAY[...]\<close>, and \<open>PgCast a\<close> is \<^verbatim>\<open>sa.func.cast(a, postgresql.ARRAY(sa.String))\<close>.
\<close>

datatype pg_array =
    PgArray "string list"
  | PgCast pg_array

datatype row_filter =
    ValueEq json
  | ValueIn "string list"

datatype sql_expr =
    SqlTrue
  | SqlAnd "sql_expr list"
  | ExistsJsonEach column row_filter
  | JsonbContains column "json list"
  | JsonbHasAny column pg_array
  | JsonbHasAll column pg_array

text \<open>
  \<^verbatim>\<open>json.dumps(v, separators=(",", ":"))\<close>: no whitespace, keys in the dictionary's order,
  characters outside printable ASCII escaped.
\<close>

function digits10 :: "nat \<Rightarrow> string" where
  "digits10 n = (if n < 10 then [hexdigit n] else digits10 (n div 10) @ [hexdigit (n mod 10)])"
  by pat_completeness auto
termination
  by (relation "measure (\<lambda>n. n)") auto

definition str_int :: "int \<Rightarrow> string" where
  "str_int i = (if i < 0 then ''-'' @ digits10 (nat (- i)) else digits10 (nat i))"

definition escape_char :: "char \<Rightarrow> string" where
  "escape_char c =
     (if c = CHR ''\"'' then [CHR 0x5C, CHR ''\"'']
      else if c = CHR 0x5C then [CHR 0x5C, CHR 0x5C]
      else if c = CHR 0x0A then [CHR 0x5C, CHR ''n'']
      else if c = CHR 0x0D then [CHR 0x5C, CHR ''r'']
      else if c = CHR 0x09 then [CHR 0x5C, CHR ''t'']
      else if c = CHR 0x08 then [CHR 0x5C, CHR ''b'']
      else if c = CHR 0x0C then [CHR 0x5C, CHR ''f'']
      else if (of_char c :: nat) < 32 \<or> 126 < (of_char c :: nat)
      then [CHR 0x5C, CHR ''u''] @ format_hex 4 (of_char c)
      else [c])"

definition dumps_str :: "string \<Rightarrow> string" where
  "dumps_str s = [CHR ''\"''] @ concat (map escape_char s) @ [CHR ''\"'']"

fun join :: "string \<Rightarrow> string list \<Rightarrow> string" where
  "join sep [] = []"
| "join sep [x] = x"
| "join sep (x # y # ys) = x @ sep @ join sep (y # ys)"

fun dumps_compact :: "json \<Rightarrow> string" where
  "dumps_compact JNull = ''null''"
| "dumps_compact (JBool b) = (if b then ''true'' else ''false'')"
| "dumps_compact (JInt i) = str_int i"
| "dumps_compact (JStr s) = dumps_str s"
| "dumps_compact (JArr xs) = ''['' @ join '','' (map dumps_compact xs) @ '']''"
| "dumps_compact (JObj kvs) =
     ''{'' @ join '','' (map (\<lambda>(k, v). dumps_str k @ '':'' @ dumps_compact v) kvs) @ ''}''"

subsection \<open>The compilers\<close>

text \<open>
  \<^verbatim>\<open>
  @compiles(json_contains)
  def json_contains_postgresql(element, compiler, **kwargs):
      return compiler.process(
          sa.type_coerce(element.json_expr, postgresql.JSONB).contains(element.values),
          **kwargs)
  \<close>
\<close>

definition json_contains_postgresql :: "column \<Rightarrow> json list \<Rightarrow> sql_expr" where
  "json_contains_postgresql json_expr values = JsonbContains json_expr values"

text \<open>
  \<^verbatim>\<open>
  @compiles(json_contains, "sqlite")
  def json_contains_sqlite(element, compiler, **kwargs):
      json_values = []
      for v in element.values:
          if isinstance(v, (dict, list)):
              v = json.dumps(v, separators=(",", ":"))
          json_values.append(v)
      json_each = sa.func.json_each(element.json_expr).alias("json_each")
      return compiler.process(
          sa.and_(
              *[
                  sa.select(1).select_from(json_each)
                  .filter(sa.literal_column("json_each.value") == v).exists()
                  for v in json_values
              ]
              or [True]
          ),
          **kwargs)
  \<close>
  An empty Python list is false, so \<^verbatim>\<open>[...] or [True]\<close> is \<^verbatim>\<open>[True]\<close> exactly when the
  comprehension is empty.
\<close>

definition or_True :: "sql_expr list \<Rightarrow> sql_expr list" where
  "or_True xs = (if xs = [] then [SqlTrue] else xs)"

definition json_contains_sqlite :: "column \<Rightarrow> json list \<Rightarrow> sql_expr" where
  "json_contains_sqlite json_expr values =
     (let json_values = map (\<lambda>v. if is_container v then JStr (dumps_compact v) else v) values
      in SqlAnd (or_True (map (\<lambda>v. ExistsJsonEach json_expr (ValueEq v)) json_values)))"

text \<open>
  \<^verbatim>\<open>
  @compiles(json_has_any_key)
  def json_has_any_key_postgresql(element, compiler, **kwargs):
      values_array = postgresql.array(element.values)
      if not element.values:
          values_array = sa.func.cast(values_array, postgresql.ARRAY(sa.String))
      return compiler.process(
          sa.type_coerce(element.json_expr, postgresql.JSONB).has_any(values_array),
          **kwargs)

  @compiles(json_has_any_key, "sqlite")
  def json_has_any_key_sqlite(element, compiler, **kwargs):
      json_each = sa.func.json_each(element.json_expr).alias("json_each")
      return compiler.process(
          sa.select(1).select_from(json_each)
          .filter(sa.literal_column("json_each.value").in_(element.values)).exists(),
          **kwargs)
  \<close>
  \<^verbatim>\<open>not element.values\<close> is true exactly for the empty list.
\<close>

definition json_has_any_key_postgresql :: "column \<Rightarrow> string list \<Rightarrow> sql_expr" where
  "json_has_any_key_postgresql json_expr values =
     (let values_array = PgArray values;
          values_array = (if values = [] then PgCast values_array else values_array)
      in JsonbHasAny json_expr values_array)"

definition json_has_any_key_sqlite :: "column \<Rightarrow> string list \<Rightarrow> sql_expr" where
  "json_has_any_key_sqlite json_expr values = ExistsJsonEach json_expr (ValueIn values)"

text \<open>
  \<^verbatim>\<open>
  @compiles(json_has_all_keys)
  def json_has_all_keys_postgresql(element, compiler, **kwargs):
      values_array = postgresql.array(element.values)
      if not element.values:
          values_array = sa.func.cast(values_array, postgresql.ARRAY(sa.String))
      return compiler.process(
          sa.type_coerce(element.json_expr, postgresql.JSONB).has_all(values_array),
          **kwargs)

  @compiles(json_has_all_keys, "sqlite")
  def json_has_all_keys_sqlite(element, compiler, **kwargs):
      return compiler.process(
          sa.and_(
              *[json_has_any_key(element.json_expr, [v]) for v in element.values]
              or [True]
          )
      )
  \<close>
  Each conjunct is a \<^verbatim>\<open>json_has_any_key\<close> element over one string; the sqlite compiler
  renders it with \<^verbatim>\<open>json_has_any_key_sqlite\<close>.
\<close>

definition json_has_all_keys_postgresql :: "column \<Rightarrow> string list \<Rightarrow> sql_expr" where
  "json_has_all_keys_postgresql json_expr values =
     (let values_array = PgArray values;
          values_array = (if values = [] then PgCast values_array else values_array)
      in JsonbHasAll json_expr values_array)"

definition json_has_all_keys_sqlite :: "column \<Rightarrow> string list \<Rightarrow> sql_expr" where
  "json_has_all_keys_sqlite json_expr values =
     SqlAnd (or_True (map (\<lambda>v. json_has_any_key_sqlite json_expr [v]) values))"

text \<open>
  \<^verbatim>\<open>@compiles(cls, "sqlite")\<close> registers the compiler used by the sqlite dialect;
  \<^verbatim>\<open>@compiles(cls)\<close> registers the one used by every other dialect.
\<close>

fun compile :: "dialect \<Rightarrow> element \<Rightarrow> sql_expr" where
  "compile d (Json_contains e vs) =
     (if name d = ''sqlite'' then json_contains_sqlite e vs else json_contains_postgresql e vs)"
| "compile d (Json_has_any_key e ks) =
     (if name d = ''sqlite'' then json_has_any_key_sqlite e ks
      else json_has_any_key_postgresql e ks)"
| "compile d (Json_has_all_keys e ks) =
     (if name d = ''sqlite'' then json_has_all_keys_sqlite e ks
      else json_has_all_keys_postgresql e ks)"

subsection \<open>What the two backends compute\<close>

text \<open>
  The meaning of the emitted SQL is fixed by the database engines and by SQLAlchemy's
  rendering, not by this module; it is written down here from their documentation.

  SQLite. \<^verbatim>\<open>json_each(doc)\<close> yields one row per element of a top-level array, one row per
  member of a top-level object, and a single row for a primitive document. The \<^verbatim>\<open>value\<close>
  column holds SQL \<^verbatim>\<open>NULL\<close> for JSON null, the integers 1 and 0 for true and false, the
  number or the text itself for a number or a string, and for an array or an object its
  JSON text without whitespace (the form \<open>dumps_compact\<close> produces, which is why
  \<^verbatim>\<open>json_contains_sqlite\<close> dumps its non-scalar values that way).
\<close>

datatype sqlite_value = SqlNull | SqlInteger int | SqlText string

fun json_each_value :: "json \<Rightarrow> sqlite_value" where
  "json_each_value JNull = SqlNull"
| "json_each_value (JBool b) = SqlInteger (if b then 1 else 0)"
| "json_each_value (JInt i) = SqlInteger i"
| "json_each_value (JStr s) = SqlText s"
| "json_each_value (JArr xs) = SqlText (dumps_compact (JArr xs))"
| "json_each_value (JObj kvs) = SqlText (dumps_compact (JObj kvs))"

fun json_each :: "json \<Rightarrow> sqlite_value list" where
  "json_each (JArr xs) = map json_each_value xs"
| "json_each (JObj kvs) = map (\<lambda>(k, v). json_each_value v) kvs"
| "json_each v = [json_each_value v]"

text \<open>
  The filter of a \<^verbatim>\<open>json_each\<close> row. SQLAlchemy renders \<^verbatim>\<open>column == None\<close> as
  \<^verbatim>\<open>column IS NULL\<close>, \<^verbatim>\<open>column == True\<close> as \<^verbatim>\<open>column = 1\<close> on sqlite (which has no native
  boolean), and binds an \<^verbatim>\<open>int\<close> or a \<^verbatim>\<open>str\<close> as an integer or a text parameter. Neither
  operand has a type affinity, so SQLite compares without conversion: values of different
  storage classes are unequal, and \<^verbatim>\<open>NULL = x\<close> is never true. \<^verbatim>\<open>column IN ()\<close> over an
  empty list is false. A list or dict never reaches a comparison, because
  \<^verbatim>\<open>json_contains_sqlite\<close> replaces it by its text first.
\<close>

fun filter_holds :: "row_filter \<Rightarrow> sqlite_value \<Rightarrow> bool" where
  "filter_holds (ValueEq JNull) x = (x = SqlNull)"
| "filter_holds (ValueEq (JBool b)) x = (x = SqlInteger (if b then 1 else 0))"
| "filter_holds (ValueEq (JInt i)) x = (x = SqlInteger i)"
| "filter_holds (ValueEq (JStr s)) x = (x = SqlText s)"
| "filter_holds (ValueEq (JArr _)) x = False"
| "filter_holds (ValueEq (JObj _)) x = False"
| "filter_holds (ValueIn ks) x = list_ex (\<lambda>k. x = SqlText k) ks"

text \<open>
  PostgreSQL. \<^verbatim>\<open>a @> b\<close> on \<^verbatim>\<open>jsonb\<close> is containment: an object contains an object when
  every pair of the right one has its key in the left one with a value that is equal (for
  primitives) or contains it (for containers of the same kind); an array contains an array
  when every element of the right one is, if primitive, equal to some element of the left
  one and, if a container, contained in some container element of the left one; an object
  and an array never contain one another. At top level an array also contains a primitive
  that equals one of its elements, a primitive contains an equal primitive, and a primitive
  contains no array.
\<close>

fun jsonb_deep_contains :: "json \<Rightarrow> json \<Rightarrow> bool" where
  "jsonb_deep_contains (JObj a) (JObj b) =
     list_all (\<lambda>(k, v). case map_of a k of
                           None \<Rightarrow> False
                         | Some w \<Rightarrow> if is_container v
                                     then is_container w \<and> jsonb_deep_contains w v
                                     else w = v) b"
| "jsonb_deep_contains (JArr a) (JArr b) =
     list_all (\<lambda>v. if is_container v
                    then list_ex (\<lambda>w. is_container w \<and> jsonb_deep_contains w v) a
                    else List.member a v) b"
| "jsonb_deep_contains _ _ = False"

definition jsonb_contains :: "json \<Rightarrow> json \<Rightarrow> bool" where
  "jsonb_contains lhs rhs =
     (if is_container rhs then jsonb_deep_contains lhs rhs
      else case lhs of
             JArr a \<Rightarrow> List.member a rhs
           | JObj _ \<Rightarrow> False
           | _ \<Rightarrow> lhs = rhs)"

text \<open>
  \<^verbatim>\<open>doc ? key\<close>: the string is a key of a top-level object, a string element of a top-level
  array, or the document itself when that is a string. \<^verbatim>\<open>?|\<close> asks it for some string of
  the array and \<^verbatim>\<open>?&\<close> for all of them.
\<close>

fun jsonb_exists :: "json \<Rightarrow> string \<Rightarrow> bool" where
  "jsonb_exists (JObj kvs) k = List.member (map fst kvs) k"
| "jsonb_exists (JArr xs) k = List.member xs (JStr k)"
| "jsonb_exists v k = (v = JStr k)"

text \<open>
  Well-formed SQL. PostgreSQL cannot determine the type of the empty array literal
  \<^verbatim>\<open>ARRAY[]\<close> and rejects the statement unless the literal is cast to an array type.
  \<^verbatim>\<open>sa.and_()\<close> of no clauses renders as the empty string, which is no expression. The
  other expressions are well formed; in particular SQLAlchemy renders \<^verbatim>\<open>in_([])\<close> as a
  comparison with an empty set.
\<close>

fun array_typed :: "pg_array \<Rightarrow> bool" where
  "array_typed (PgArray ks) = (ks \<noteq> [])"
| "array_typed (PgCast a) = True"

fun array_elements :: "pg_array \<Rightarrow> string list" where
  "array_elements (PgArray ks) = ks"
| "array_elements (PgCast a) = array_elements a"

fun well_formed :: "sql_expr \<Rightarrow> bool" where
  "well_formed SqlTrue = True"
| "well_formed (SqlAnd es) = (es \<noteq> [] \<and> list_all well_formed es)"
| "well_formed (ExistsJsonEach e c) = True"
| "well_formed (JsonbContains e vs) = True"
| "well_formed (JsonbHasAny e a) = array_typed a"
| "well_formed (JsonbHasAll e a) = array_typed a"

text \<open>
  The value of a compiled predicate in a row; \<open>row e\<close> is the document the JSON expression
  \<open>e\<close> denotes in that row. \<open>evaluate\<close> is the value of a well-formed expression, and
  \<open>execute\<close> is what running the predicate gives: that value, or the backend's error for
  SQL that is not well formed.
\<close>

fun evaluate :: "(column \<Rightarrow> json) \<Rightarrow> sql_expr \<Rightarrow> bool" where
  "evaluate row SqlTrue = True"
| "evaluate row (SqlAnd es) = list_all (evaluate row) es"
| "evaluate row (ExistsJsonEach e c) = list_ex (filter_holds c) (json_each (row e))"
| "evaluate row (JsonbContains e vs) = jsonb_contains (row e) (JArr vs)"
| "evaluate row (JsonbHasAny e a) = list_ex (jsonb_exists (row e)) (array_elements a)"
| "evaluate row (JsonbHasAll e a) = list_all (jsonb_exists (row e)) (array_elements a)"

definition execute :: "(column \<Rightarrow> json) \<Rightarrow> sql_expr \<Rightarrow> error + bool" where
  "execute row e =
     (if well_formed e then Inr (evaluate row e)
      else Inl (ProgrammingError ''syntax error''))"

section \<open>Engines and session factories\<close>

text \<open>
  \<^verbatim>\<open>ENGINES\<close> and \<^verbatim>\<open>SESSION_FACTORIES\<close> are module-level dictionaries. They are the state of
  the model, together with a counter that gives each newly created object its identity
  and a log of the calls of \<^verbatim>\<open>create_db\<close>. An event loop is known by its identity.

  What the module reads from its surroundings is collected in an \<open>environment\<close>: the two
  settings used as defaults; what \<^verbatim>\<open>create_async_engine\<close> makes of a connection URL, which
  is either the exception it raises (for a URL it cannot parse, or one whose driver is not
  an async driver, such as \<^verbatim>\<open>sqlite:///...\<close>) or the name of the engine's dialect and
  \<^verbatim>\<open>engine.url.database\<close>, which may be \<^verbatim>\<open>None\<close>; and \<^verbatim>\<open>os.path.exists\<close>. Creating the
  tables is taken to succeed.
\<close>

type_synonym loop = nat

record engine =
  engine_id :: nat
  engine_url :: string
  engine_echo :: bool
  poolclass :: "string option"
  dialect_name :: string
  url_database :: "string option"

record session_factory =
  factory_id :: nat
  factory_bind :: engine

record environment =
  settings_connection_url :: string
  settings_echo :: bool
  url_facts :: "string \<Rightarrow> error + string \<times> string option"
  path_exists :: "string \<Rightarrow> bool"

record registry =
  ENGINES :: "(loop \<times> string \<times> bool) \<rightharpoonup> engine"
  SESSION_FACTORIES :: "(loop \<times> engine) \<rightharpoonup> session_factory"
  next_id :: nat
  create_db_calls :: "engine list"

text \<open>\<^verbatim>\<open>s.startswith(p)\<close> and \<^verbatim>\<open>sub in s\<close> on strings.\<close>

definition startswith :: "string \<Rightarrow> string \<Rightarrow> bool" where
  "startswith s p \<longleftrightarrow> take (length p) s = p"

fun str_in :: "string \<Rightarrow> string \<Rightarrow> bool" where
  "str_in sub [] = (sub = [])"
| "str_in sub (c # cs) = (take (length sub) (c # cs) = sub \<or> str_in sub cs)"

text \<open>
  \<^verbatim>\<open>
  async def create_db(engine=None):
      engine = engine or await get_engine()
      async with engine.begin() as conn:
          await conn.run_sync(Base.metadata.create_all)
  \<close>
  Called by \<^verbatim>\<open>get_engine\<close> with the engine it has just built; the model records the call.
\<close>

definition create_db :: "engine \<Rightarrow> registry \<Rightarrow> registry" where
  "create_db e st = st\<lparr>create_db_calls := create_db_calls st @ [e]\<rparr>"

text \<open>
  \<^verbatim>\<open>
  async def get_engine(connection_url=None, echo=None):
      if connection_url is None:
          connection_url = settings.orion.database.connection_url.get_secret_value()
      if echo is None:
          echo = settings.orion.database.echo
      kwargs = {}
      loop = get_event_loop()
      cache_key = (loop, connection_url, echo)
      if cache_key not in ENGINES:
          # ensure a long-lasting pool is used with in-memory databases
          # because they disappear when the last connection closes
          if connection_url.startswith("sqlite") and ":memory:" in connection_url:
              kwargs.update(poolclass=sa.pool.SingletonThreadPool)
          engine = create_async_engine(connection_url, echo=echo, **kwargs)
          # if this is a new sqlite database create all database objects
          if engine.dialect.name == "sqlite" and (
              ":memory:" in engine.url.database
              or "mode=memory" in engine.url.database
              or not os.path.exists(engine.url.database)
          ):
              await create_db(engine)
          ENGINES[cache_key] = engine
      return ENGINES[cache_key]
  \<close>
  \<^verbatim>\<open>":memory:" in None\<close> raises \<^verbatim>\<open>TypeError\<close>, and \<^verbatim>\<open>create_async_engine\<close> may raise;
  the engine is then not cached.

  \<^verbatim>\<open>get_engine\<close> is a coroutine. Between the test \<^verbatim>\<open>cache_key not in ENGINES\<close> and the
  store \<^verbatim>\<open>ENGINES[cache_key] = engine\<close> it can be suspended at one place,
  \<^verbatim>\<open>await create_db(engine)\<close>, and other coroutines of the same loop may run while it is.
  \<open>get_engine_begin\<close> runs a call up to that place, or to its end when the place is not
  reached; \<open>get_engine_resume\<close> runs a suspended call from there to its end. \<open>get_engine\<close>
  is a whole call during which no other call runs.
\<close>

definition resolved_url :: "environment \<Rightarrow> string option \<Rightarrow> string" where
  "resolved_url env connection_url =
     (case connection_url of None \<Rightarrow> settings_connection_url env | Some u \<Rightarrow> u)"

definition resolved_echo :: "environment \<Rightarrow> bool option \<Rightarrow> bool" where
  "resolved_echo env echo = (case echo of None \<Rightarrow> settings_echo env | Some b \<Rightarrow> b)"

definition pool_kwargs :: "string \<Rightarrow> string option" where
  "pool_kwargs connection_url =
     (if startswith connection_url ''sqlite'' \<and> str_in '':memory:'' connection_url
      then Some ''SingletonThreadPool'' else None)"

definition create_async_engine ::
  "environment \<Rightarrow> nat \<Rightarrow> string \<Rightarrow> bool \<Rightarrow> string option \<Rightarrow> error + engine" where
  "create_async_engine env ident connection_url echo kwargs =
     (case url_facts env connection_url of
        Inl e \<Rightarrow> Inl e
      | Inr (dialect, database) \<Rightarrow>
          Inr \<lparr>engine_id = ident, engine_url = connection_url, engine_echo = echo,
               poolclass = kwargs, dialect_name = dialect, url_database = database\<rparr>)"

definition is_new_sqlite_database :: "environment \<Rightarrow> engine \<Rightarrow> error + bool" where
  "is_new_sqlite_database env engine =
     (if dialect_name engine = ''sqlite''
      then (case url_database engine of
              None \<Rightarrow> Inl (TypeError ''argument of type 'NoneType' is not iterable'')
            | Some database \<Rightarrow>
                Inr (str_in '':memory:'' database \<or> str_in ''mode=memory'' database
                     \<or> \<not> path_exists env database))
      else Inr False)"

datatype get_engine_state =
    Raised error
  | Returned engine registry
  | Awaiting_create_db "loop \<times> string \<times> bool" engine registry

definition get_engine_begin ::
  "environment \<Rightarrow> loop \<Rightarrow> string option \<Rightarrow> bool option \<Rightarrow> registry \<Rightarrow> get_engine_state" where
  "get_engine_begin env loop connection_url echo st =
     (let connection_url = resolved_url env connection_url;
          echo = resolved_echo env echo;
          cache_key = (loop, connection_url, echo)
      in case ENGINES st cache_key of
           Some cached \<Rightarrow> Returned cached st
         | None \<Rightarrow>
             (let kwargs = pool_kwargs connection_url
              in case create_async_engine env (next_id st) connection_url echo kwargs of
                   Inl e \<Rightarrow> Raised e
                 | Inr engine \<Rightarrow>
                     (let st = st\<lparr>next_id := Suc (next_id st)\<rparr>
                      in case is_new_sqlite_database env engine of
                           Inl e \<Rightarrow> Raised e
                         | Inr new \<Rightarrow>
                             if new then Awaiting_create_db cache_key engine st
                             else Returned engine
                                    (st\<lparr>ENGINES := (ENGINES st)(cache_key \<mapsto> engine)\<rparr>))))"

definition get_engine_resume ::
  "loop \<times> string \<times> bool \<Rightarrow> engine \<Rightarrow> registry \<Rightarrow> engine \<times> registry" where
  "get_engine_resume cache_key engine st =
     (let st = create_db engine st;
          st = st\<lparr>ENGINES := (ENGINES st)(cache_key \<mapsto> engine)\<rparr>
      in (engine, st))"

definition get_engine ::
  "environment \<Rightarrow> loop \<Rightarrow> string option \<Rightarrow> bool option \<Rightarrow> registry
     \<Rightarrow> error + engine \<times> registry" where
  "get_engine env loop connection_url echo st =
     (case get_engine_begin env loop connection_url echo st of
        Raised e \<Rightarrow> Inl e
      | Returned engine st \<Rightarrow> Inr (engine, st)
      | Awaiting_create_db cache_key engine st \<Rightarrow> Inr (get_engine_resume cache_key engine st))"

text \<open>
  \<^verbatim>\<open>
  async def get_session_factory(bind=None):
      if bind is None:
          bind = await get_engine()
      loop = get_event_loop()
      cache_key = (loop, bind)
      if cache_key not in SESSION_FACTORIES:
          session_factory = sessionmaker(
              bind, future=True, expire_on_commit=False, class_=AsyncSession)
          SESSION_FACTORIES[cache_key] = async_scoped_session(
              session_factory, scopefunc=current_task)
      return SESSION_FACTORIES[cache_key]
  \<close>
  After \<^verbatim>\<open>await get_engine()\<close> the coroutine runs to its end without suspension. The
  definition is a whole call during which no other call runs.
\<close>

definition async_scoped_session :: "nat \<Rightarrow> engine \<Rightarrow> session_factory" where
  "async_scoped_session ident bind = \<lparr>factory_id = ident, factory_bind = bind\<rparr>"

definition get_session_factory ::
  "environment \<Rightarrow> loop \<Rightarrow> engine option \<Rightarrow> registry \<Rightarrow> error + session_factory \<times> registry" where
  "get_session_factory env loop bind st =
     (case (case bind of
              None \<Rightarrow> get_engine env loop None None st
            | Some b \<Rightarrow> Inr (b, st)) of
        Inl e \<Rightarrow> Inl e
      | Inr (bind, st) \<Rightarrow>
          (let cache_key = (loop, bind)
           in case SESSION_FACTORIES st cache_key of
                Some cached \<Rightarrow> Inr (cached, st)
              | None \<Rightarrow>
                  (let factory = async_scoped_session (next_id st) bind
                   in Inr (factory,
                           st\<lparr>next_id := Suc (next_id st),
                              SESSION_FACTORIES := (SESSION_FACTORIES st)(cache_key \<mapsto> factory)\<rparr>))))"

text \<open>
  Every object the dictionaries and the log hold was created earlier, so its identity is
  below the counter.
\<close>

definition registry_ok :: "registry \<Rightarrow> bool" where
  "registry_ok st \<longleftrightarrow>
     (\<forall>e \<in> ran (ENGINES st). engine_id e < next_id st)
     \<and> (\<forall>e \<in> set (create_db_calls st). engine_id e < next_id st)"

definition empty_registry :: registry where
  "empty_registry =
     \<lparr>ENGINES = Map.empty, SESSION_FACTORIES = Map.empty, next_id = 0, create_db_calls = []\<rparr>"

section \<open>Foreign keys on sqlite\<close>

text \<open>
  \<^verbatim>\<open>
  @listens_for(sa.engine.Engine, "engine_connect", once=True)
  def setup_sqlite(conn, named=True):
      """The first time a connection is made to a sqlite engine, we enable sqlite foreign keys"""
      if conn.engine.url.get_backend_name() == "sqlite":
          cursor = conn.connection.cursor()
          cursor.execute("PRAGMA foreign_keys=ON")
          cursor.close()
  \<close>
  The listener is registered on the class \<^verbatim>\<open>Engine\<close>, so it hears the \<^verbatim>\<open>engine_connect\<close>
  event of every engine, and with \<^verbatim>\<open>once=True\<close> SQLAlchemy calls it for the first such
  event only. The event carries a connection, known here by the backend name of its engine
  and by the identity of the DBAPI connection underneath. SQLite keeps the
  \<^verbatim>\<open>foreign_keys\<close> setting per DBAPI connection and starts it as off, so the state records
  on which DBAPI connections the pragma has been executed.
\<close>

record connection =
  backend_name :: string
  dbapi_connection :: nat

record connect_state =
  listener_pending :: bool
  foreign_keys_on :: "nat list"

definition setup_sqlite :: "connection \<Rightarrow> nat list \<Rightarrow> nat list" where
  "setup_sqlite conn pragma_on =
     (if backend_name conn = ''sqlite'' then pragma_on @ [dbapi_connection conn]
      else pragma_on)"

definition engine_connect :: "connection \<Rightarrow> connect_state \<Rightarrow> connect_state" where
  "engine_connect conn st =
     (if listener_pending st
      then \<lparr>listener_pending = False,
            foreign_keys_on = setup_sqlite conn (foreign_keys_on st)\<rparr>
      else st)"

definition process_start :: connect_state where
  "process_start = \<lparr>listener_pending = True, foreign_keys_on = []\<rparr>"

fun connect_all :: "connection list \<Rightarrow> connect_state \<Rightarrow> connect_state" where
  "connect_all [] st = st"
| "connect_all (c # cs) st = connect_all cs (engine_connect c st)"

section \<open>Auxiliary notions\<close>

text \<open>Used only to state facts about the functions above: the lower-case hexadecimal
  digits, and the value of a digit string read from the left.\<close>

definition hexchars :: "char set" where
  "hexchars = set ''0123456789abcdef''"

definition hex_value :: "nat \<Rightarrow> string \<Rightarrow> nat" where
  "hex_value acc s = foldl (\<lambda>a c. a * 16 + the (digit_value c)) acc s"

text \<open>
  For the predicates: the expression an element is applied to, documents that are arrays
  of primitive values (strings, integers, booleans, null), and elements whose values are
  all strings (the key predicates always are, by their constructors).
\<close>

fun json_expr :: "element \<Rightarrow> column" where
  "json_expr (Json_contains e vs) = e"
| "json_expr (Json_has_any_key e ks) = e"
| "json_expr (Json_has_all_keys e ks) = e"

definition scalar_array :: "json \<Rightarrow> bool" where
  "scalar_array doc = (case doc of JArr xs \<Rightarrow> list_all (\<lambda>x. \<not> is_container x) xs | _ \<Rightarrow> False)"

definition string_values :: "element \<Rightarrow> bool" where
  "string_values el = (case el of Json_contains e vs \<Rightarrow> list_all is_str vs | _ \<Rightarrow> True)"

text \<open>
  For the registry: the cache key \<^verbatim>\<open>get_engine\<close> computes, and an environment for the
  concrete examples. In it three URLs with async drivers give engines, with the dialect
  name and the database SQLAlchemy reads from them; every other URL is refused as having
  no async driver; and no file exists.
\<close>

definition engine_key ::
  "environment \<Rightarrow> loop \<Rightarrow> string option \<Rightarrow> bool option \<Rightarrow> loop \<times> string \<times> bool" where
  "engine_key env loop connection_url echo =
     (loop, resolved_url env connection_url, resolved_echo env echo)"

text \<open>
  Two calls of \<^verbatim>\<open>get_engine\<close> with the same arguments in the same loop that overlap: the
  second begins while the first is suspended in \<^verbatim>\<open>await create_db(engine)\<close>, then the
  first is resumed and runs to its end, then the second. The value is what each call
  returns with the state it leaves, or \<open>None\<close> when one of the two calls is not suspended.
\<close>

definition overlapping_calls ::
  "environment \<Rightarrow> loop \<Rightarrow> string option \<Rightarrow> bool option \<Rightarrow> registry
     \<Rightarrow> ((engine \<times> registry) \<times> (engine \<times> registry)) option" where
  "overlapping_calls env loop connection_url echo st =
     (case get_engine_begin env loop connection_url echo st of
        Awaiting_create_db key1 engine1 st1 \<Rightarrow>
          (case get_engine_begin env loop connection_url echo st1 of
             Awaiting_create_db key2 engine2 st2 \<Rightarrow>
               (let (result1, st3) = get_engine_resume key1 engine1 st2;
                    (result2, st4) = get_engine_resume key2 engine2 st3
                in Some ((result1, st3), (result2, st4)))
           | _ \<Rightarrow> None)
      | _ \<Rightarrow> None)"

definition example_environment :: environment where
  "example_environment =
     \<lparr>settings_connection_url = ''sqlite+aiosqlite:///:memory:'',
      settings_echo = False,
      url_facts =
        (\<lambda>u. case map_of [(''sqlite+aiosqlite:///:memory:'', (''sqlite'', Some '':memory:'')),
                             (''sqlite+aiosqlite:///orion.db'', (''sqlite'', Some ''orion.db'')),
                             (''postgresql+asyncpg://localhost/orion'',
                                (''postgresql'', Some ''orion''))] u of
               Some facts \<Rightarrow> Inr facts
             | None \<Rightarrow>
                 Inl (InvalidRequestError
                        ''The asyncio extension requires an async driver to be used.'')),
      path_exists = (\<lambda>p. False)\<rparr>"

section \<open>Properties of the Timestamp adapter\<close>

lemma in_timezone_utc_aware:
  "tzinfo v = Some off \<Longrightarrow>
     in_timezone_utc (pendulum_instance v) =
       (if representable (wall v - off)
        then Inr \<lparr>wall = wall v - off, tzinfo = Some 0\<rparr>
        else Inl (OverflowError ''date value out of range''))"
  by (simp add: in_timezone_utc_def pendulum_instance_def)

text \<open>
  Claim C4 says that encoding fails exactly when the value is naive and that an aware value
  is accepted and, on sqlite, converted to UTC. The aware value 0001-01-01 00:00:00+01:00
  is not accepted on sqlite: its reading in UTC lies before \<^verbatim>\<open>datetime.min\<close>, and the
  conversion raises \<^verbatim>\<open>OverflowError\<close>.
\<close>

theorem aware_timestamp_overflows_on_sqlite:
  "tzinfo \<lparr>wall = 0, tzinfo = Some 3600000000\<rparr> \<noteq> None
   \<and> Timestamp_process_bind_param (Some \<lparr>wall = 0, tzinfo = Some 3600000000\<rparr>) sqlite
       = Inl (OverflowError ''date value out of range'')"
  by (simp add: Timestamp_process_bind_param_def in_timezone_utc_aware representable_def)

text \<open>
  Claim C4, amended. On every dialect, encoding maps \<^verbatim>\<open>None\<close> to \<^verbatim>\<open>None\<close> and raises the
  validation error (\<^verbatim>\<open>ValueError\<close>, "Timestamps must have a timezone.") exactly when the
  value has no \<^verbatim>\<open>tzinfo\<close>. An aware value is returned unchanged on every dialect other
  than sqlite. On sqlite it is converted to UTC, the same instant with offset zero, when
  its reading in UTC is representable (years 1 to 9999); otherwise the conversion raises
  \<^verbatim>\<open>OverflowError\<close>.
\<close>

theorem Timestamp_bind_param:
  "Timestamp_process_bind_param None d = Inr None
   \<and> (Timestamp_process_bind_param (Some v) d
         = Inl (ValueError ''Timestamps must have a timezone.'') \<longleftrightarrow> tzinfo v = None)
   \<and> (\<forall>off. tzinfo v = Some off \<longrightarrow>
         (name d \<noteq> ''sqlite'' \<longrightarrow> Timestamp_process_bind_param (Some v) d = Inr (Some v))
       \<and> (name d = ''sqlite'' \<and> representable (wall v - off) \<longrightarrow>
            Timestamp_process_bind_param (Some v) d
              = Inr (Some \<lparr>wall = wall v - off, tzinfo = Some 0\<rparr>))
       \<and> (name d = ''sqlite'' \<and> \<not> representable (wall v - off) \<longrightarrow>
            Timestamp_process_bind_param (Some v) d
              = Inl (OverflowError ''date value out of range'')))"
  by (auto simp: Timestamp_process_bind_param_def in_timezone_utc_aware split: if_splits)

theorem Timestamp_bind_param_witness:
  "Timestamp_process_bind_param (Some \<lparr>wall = 7200000000, tzinfo = None\<rparr>) sqlite
     = Inl (ValueError ''Timestamps must have a timezone.'')
   \<and> Timestamp_process_bind_param (Some \<lparr>wall = 7200000000, tzinfo = None\<rparr>) postgresql
     = Inl (ValueError ''Timestamps must have a timezone.'')
   \<and> Timestamp_process_bind_param (Some \<lparr>wall = 7200000000, tzinfo = Some 3600000000\<rparr>) sqlite
     = Inr (Some \<lparr>wall = 3600000000, tzinfo = Some 0\<rparr>)
   \<and> Timestamp_process_bind_param (Some \<lparr>wall = 7200000000, tzinfo = Some 3600000000\<rparr>) postgresql
     = Inr (Some \<lparr>wall = 7200000000, tzinfo = Some 3600000000\<rparr>)
   \<and> Timestamp_process_bind_param (Some \<lparr>wall = 0, tzinfo = Some 3600000000\<rparr>) sqlite
     = Inl (OverflowError ''date value out of range'')"
proof -
  let ?naive = "\<lparr>wall = 7200000000, tzinfo = None\<rparr>"
  let ?aware = "\<lparr>wall = 7200000000, tzinfo = Some 3600000000\<rparr>"
  let ?early = "\<lparr>wall = 0, tzinfo = Some 3600000000\<rparr>"
  have n1: "tzinfo ?naive = None" by simp
  have a1: "tzinfo ?aware = Some 3600000000" "tzinfo ?early = Some 3600000000" by simp_all
  have r1: "representable (wall ?aware - 3600000000)" "\<not> representable (wall ?early - 3600000000)"
    by (simp_all add: representable_def datetime_max_def)
  have s: "name sqlite = ''sqlite''" "name postgresql \<noteq> ''sqlite''" by simp_all
  from Timestamp_bind_param [of sqlite ?naive] n1
  have c1: "Timestamp_process_bind_param (Some ?naive) sqlite
              = Inl (ValueError ''Timestamps must have a timezone.'')" by blast
  from Timestamp_bind_param [of postgresql ?naive] n1
  have c2: "Timestamp_process_bind_param (Some ?naive) postgresql
              = Inl (ValueError ''Timestamps must have a timezone.'')" by blast
  from Timestamp_bind_param [of sqlite ?aware] a1(1) r1(1) s(1)
  have c3: "Timestamp_process_bind_param (Some ?aware) sqlite
              = Inr (Some \<lparr>wall = wall ?aware - 3600000000, tzinfo = Some 0\<rparr>)"
    by blast
  from Timestamp_bind_param [of postgresql ?aware] a1(1) s(2)
  have c4: "Timestamp_process_bind_param (Some ?aware) postgresql = Inr (Some ?aware)"
    by blast
  from Timestamp_bind_param [of sqlite ?early] a1(2) r1(2) s(1)
  have c5: "Timestamp_process_bind_param (Some ?early) sqlite
              = Inl (OverflowError ''date value out of range'')"
    by blast
  from c1 c2 c3 c4 c5 show ?thesis by simp
qed

section \<open>Properties of the UUID adapter\<close>

subsection \<open>Formatting and parsing hexadecimal text\<close>


lemma hexdigit_in: "m < 16 \<Longrightarrow> hexdigit m \<in> hexchars"
  unfolding hexdigit_def hexchars_def by (rule nth_mem) simp

lemma digit_value_hexdigit: "m < 16 \<Longrightarrow> digit_value (hexdigit m) = Some m"
proof -
  assume m: "m < 16"
  have "list_all (\<lambda>m. digit_value (hexdigit m) = Some m) [0..<16]"
    by code_simp
  then show ?thesis using m by (simp add: list_all_iff)
qed

lemma set_format_hex: "set (format_hex k n) \<subseteq> hexchars"
  by (induction k arbitrary: n) (auto simp: hexdigit_in)

lemma length_format_hex [simp]: "length (format_hex k n) = k"
  by (induction k arbitrary: n) auto

lemma hexchars_digit: "c \<in> hexchars \<Longrightarrow> \<exists>d. digit_value c = Some d"
  by (auto simp: hexchars_def digit_value_def)

lemma hexchars_not_special:
  "c \<in> hexchars \<Longrightarrow> \<not> int_space c \<and> c \<noteq> CHR ''+'' \<and> c \<noteq> CHR ''-'' \<and> c \<noteq> CHR ''_''
      \<and> c \<noteq> CHR ''x'' \<and> c \<noteq> CHR ''X'' \<and> c \<noteq> CHR ''u'' \<and> c \<noteq> CHR ''{'' \<and> c \<noteq> CHR ''}''"
  by (auto simp: hexchars_def int_space_def)


lemma scan_digits_hex:
  "set xs \<subseteq> hexchars \<Longrightarrow>
     scan_digits acc j False (xs @ ys) = scan_digits (hex_value acc xs) (j + length xs) False ys"
proof (induction xs arbitrary: acc j)
  case Nil
  then show ?case by (simp add: hex_value_def)
next
  case (Cons c cs)
  then have c: "c \<in> hexchars" and cs: "set cs \<subseteq> hexchars" by auto
  from hexchars_digit [OF c] obtain d where d: "digit_value c = Some d" by blast
  from hexchars_not_special [OF c] have u: "c \<noteq> CHR ''_''" by blast
  show ?case using Cons.IH [OF cs] d u by (simp add: hex_value_def)
qed

lemma hex_value_format_hex: "hex_value acc (format_hex k n) = acc * 16 ^ k + n mod 16 ^ k"
proof (induction k arbitrary: n)
  case 0
  then show ?case by (simp add: hex_value_def)
next
  case (Suc k)
  have "hex_value acc (format_hex (Suc k) n)
          = hex_value acc (format_hex k (n div 16)) * 16 + n mod 16"
    by (simp add: hex_value_def digit_value_hexdigit)
  also have "\<dots> = (acc * 16 ^ k + (n div 16) mod 16 ^ k) * 16 + n mod 16"
    by (simp add: Suc.IH)
  also have "\<dots> = acc * 16 ^ Suc k + ((n div 16) mod 16 ^ k * 16 + n mod 16)"
    by (simp add: algebra_simps)
  also have "(n div 16) mod 16 ^ k * 16 + n mod 16 = n mod 16 ^ Suc k"
    by (simp add: mod_mult2_eq)
  finally show ?case .
qed

lemma int_16_format_hex: "0 < k \<Longrightarrow> int_16 (format_hex k n) = Some (int (n mod 16 ^ k))"
proof -
  assume k: "0 < k"
  let ?s = "format_hex k n"
  have sub: "set ?s \<subseteq> hexchars" by (rule set_format_hex)
  have ne: "?s \<noteq> []" using k by (metis length_format_hex length_0_conv less_numeral_extra(3))
  have nsp: "\<And>c. c \<in> set ?s \<Longrightarrow> \<not> int_space c \<and> c \<noteq> CHR ''+'' \<and> c \<noteq> CHR ''-''
      \<and> c \<noteq> CHR ''_'' \<and> c \<noteq> CHR ''x'' \<and> c \<noteq> CHR ''X''"
    using sub hexchars_not_special by blast
  have dw: "dropWhile int_space ?s = ?s"
    using ne nsp by (cases ?s) auto
  have sg: "skip_sign ?s = (1, ?s)"
    using ne nsp by (cases ?s) (auto simp: skip_sign_def)
  have pf: "skip_prefix ?s = ?s"
    using nsp by (auto simp: skip_prefix_def split: list.splits)
  have us: "take 1 ?s \<noteq> ''_''"
    using ne nsp by (cases ?s) auto
  have sc: "scan_digits 0 0 False ?s = Some (n mod 16 ^ k, k, [])"
    using scan_digits_hex [OF sub, of 0 0 "[]"] by (simp add: hex_value_format_hex)
  show ?thesis
    using k us by (simp add: int_16_def dw sg pf sc Let_def)
qed

lemma str_remove_absent: "old \<noteq> [] \<Longrightarrow> hd old \<notin> set s \<Longrightarrow> str_remove old s = s"
proof (induction s)
  case Nil
  then show ?case by simp
next
  case (Cons c cs)
  have "take (length old) (c # cs) \<noteq> old"
  proof
    assume "take (length old) (c # cs) = old"
    then have "hd old = c" using Cons.prems(1) by (cases old) auto
    then show False using Cons.prems(2) by simp
  qed
  then show ?case using Cons by simp
qed

lemma str_remove_single: "str_remove [x] s = filter (\<lambda>c. c \<noteq> x) s"
  by (induction s) auto

lemma str_strip_id: "s \<noteq> [] \<Longrightarrow> hd s \<notin> set chars \<Longrightarrow> last s \<notin> set chars \<Longrightarrow> str_strip chars s = s"
proof -
  assume ne: "s \<noteq> []" and h: "hd s \<notin> set chars" and l: "last s \<notin> set chars"
  have a: "dropWhile (\<lambda>c. c \<in> set chars) s = s"
    using h by (simp add: dropWhile_eq_self_iff)
  have b: "dropWhile (\<lambda>c. c \<in> set chars) (rev s) = rev s"
    using l ne by (simp add: dropWhile_eq_self_iff hd_rev)
  show ?thesis by (simp add: str_strip_def a b)
qed

lemma filter_hex: "set s \<subseteq> hexchars \<Longrightarrow> filter (\<lambda>c. c \<noteq> CHR ''-'') s = s"
  using hexchars_not_special by (induction s) auto

lemma regroup: "take 8 h @ take 4 (drop 8 h) @ take 4 (drop 12 h) @ take 4 (drop 16 h) @ drop 20 h = h"
proof -
  have a: "drop 16 h = take 4 (drop 16 h) @ drop 20 h"
    using append_take_drop_id [of 4 "drop 16 h"] by simp
  have b: "drop 12 h = take 4 (drop 12 h) @ drop 16 h"
    using append_take_drop_id [of 4 "drop 12 h"] by simp
  have c: "drop 8 h = take 4 (drop 8 h) @ drop 12 h"
    using append_take_drop_id [of 4 "drop 8 h"] by simp
  have "take 8 h @ drop 8 h = h" by simp
  then show ?thesis using a b c by metis
qed

subsection \<open>The text of an identifier parses back to it\<close>

lemma hexchars_take_drop:
  "set s \<subseteq> hexchars \<Longrightarrow> set (take n s) \<subseteq> hexchars"
  "set s \<subseteq> hexchars \<Longrightarrow> set (drop n s) \<subseteq> hexchars"
  by (meson order_trans set_take_subset set_drop_subset)+

lemma uuid_str_pieces:
  obtains a b c d e where
    "uuid_str u = a @ ''-'' @ b @ ''-'' @ c @ ''-'' @ d @ ''-'' @ e"
    "a @ b @ c @ d @ e = format_hex 32 (unat u)"
    "set a \<subseteq> hexchars" "set b \<subseteq> hexchars" "set c \<subseteq> hexchars" "set d \<subseteq> hexchars"
    "set e \<subseteq> hexchars" "a \<noteq> []" "e \<noteq> []"
proof -
  define h where "h = format_hex 32 (unat u)"
  have sub: "set h \<subseteq> hexchars" unfolding h_def by (rule set_format_hex)
  have len: "length h = 32" unfolding h_def by (rule length_format_hex)
  have hne: "h \<noteq> []" using len by auto
  have 1: "uuid_str u = take 8 h @ ''-'' @ take 4 (drop 8 h) @ ''-'' @ take 4 (drop 12 h) @ ''-''
         @ take 4 (drop 16 h) @ ''-'' @ drop 20 h"
    unfolding uuid_str_def Let_def h_def ..
  have 2: "take 8 h @ take 4 (drop 8 h) @ take 4 (drop 12 h) @ take 4 (drop 16 h) @ drop 20 h
            = format_hex 32 (unat u)"
    unfolding h_def by (rule regroup)
  have 3: "take 8 h \<noteq> []" using hne by (simp add: take_eq_Nil)
  have 4: "drop 20 h \<noteq> []" using len by simp
  show ?thesis
    using that [OF 1 2
        hexchars_take_drop(1) [OF sub]
        hexchars_take_drop(1) [OF hexchars_take_drop(2) [OF sub]]
        hexchars_take_drop(1) [OF hexchars_take_drop(2) [OF sub]]
        hexchars_take_drop(1) [OF hexchars_take_drop(2) [OF sub]]
        hexchars_take_drop(2) [OF sub] 3 4] .
qed

lemma UUID_init_uuid_str: "UUID_init (uuid_str u) = Inr u"
proof -
  obtain a b c d e where
    t: "uuid_str u = a @ ''-'' @ b @ ''-'' @ c @ ''-'' @ d @ ''-'' @ e"
    and h: "a @ b @ c @ d @ e = format_hex 32 (unat u)"
    and sub: "set a \<subseteq> hexchars" "set b \<subseteq> hexchars" "set c \<subseteq> hexchars"
       "set d \<subseteq> hexchars" "set e \<subseteq> hexchars"
    and ne: "a \<noteq> []" "e \<noteq> []"
    by (rule uuid_str_pieces)
  let ?t = "uuid_str u"
  have nu: "CHR ''u'' \<notin> hexchars" "CHR ''{'' \<notin> hexchars" "CHR ''}'' \<notin> hexchars"
    using hexchars_not_special by blast+
  have no_u: "CHR ''u'' \<notin> set ?t"
    unfolding t using sub nu(1) by auto
  have r1: "str_remove ''urn:'' ?t = ?t"
    by (rule str_remove_absent) (simp_all add: no_u)
  have r2: "str_remove ''uuid:'' ?t = ?t"
    by (rule str_remove_absent) (simp_all add: no_u)
  have hd1: "hd ?t \<in> hexchars" unfolding t using ne(1) sub(1) by (cases a) auto
  have "last ?t = last e" unfolding t using ne(2) by simp
  then have la: "last ?t \<in> hexchars" using ne(2) sub(5) last_in_set by fastforce
  have tne: "?t \<noteq> []" unfolding t by simp
  have st: "str_strip ''{}'' ?t = ?t"
    using hd1 la nu by (intro str_strip_id [OF tne]) auto
  have "filter (\<lambda>c. c \<noteq> CHR ''-'') ?t = a @ b @ c @ d @ e"
    unfolding t by (simp add: filter_hex sub)
  then have hy: "str_remove ''-'' ?t = format_hex 32 (unat u)"
    by (simp only: str_remove_single h)
  have lt: "unat u < 2 ^ 128"
    using unsigned_less [of u, where 'a = nat] by simp
  have p: "(16::nat) ^ 32 = 2 ^ 128" by simp
  have m: "unat u mod 16 ^ 32 = unat u" using lt by (simp only: p mod_less)
  have i: "int_16 (format_hex 32 (unat u)) = Some (int (unat u))"
    using int_16_format_hex [of 32 "unat u"] by (simp only: m)
  have lt2: "0 \<le> int (unat u) \<and> int (unat u) < 2 ^ 128"
    using lt by (metis of_nat_0_le_iff of_nat_less_iff of_nat_numeral of_nat_power)
  have len: "length (format_hex 32 (unat u)) = 32" by (rule length_format_hex)
  have ofi: "(of_int (int (unat u)) :: uuid) = u" by simp
  have "UUID_init ?t =
     (if length (format_hex 32 (unat u)) \<noteq> 32
      then Inl (ValueError ''badly formed hexadecimal UUID string'')
      else case int_16 (format_hex 32 (unat u)) of
             None \<Rightarrow> Inl (ValueError ''invalid literal for int() with base 16'')
           | Some i \<Rightarrow>
               if \<not> (0 \<le> i \<and> i < 2 ^ 128)
               then Inl (ValueError ''int is out of range for a 128-bit UUID'')
               else Inr (of_int i))"
    unfolding UUID_init_def Let_def r1 r2 st hy ..
  also have "\<dots> = Inr (of_int (int (unat u)))"
    unfolding i len using lt2 by (simp only: option.case if_False if_True not_not simp_thms)
  finally show ?thesis by (simp only: ofi)
qed

lemma format_hex_numeral:
  "format_hex (numeral k) n = format_hex (pred_numeral k) (n div 16) @ [hexdigit (n mod 16)]"
  using format_hex.simps(2) [of "pred_numeral k" n] by (simp only: numeral_eq_Suc)

lemma uuid_str_example:
  "uuid_str 0x12345678123456781234567812345678 = ''12345678-1234-5678-1234-567812345678''"
  by (simp add: uuid_str_def format_hex_numeral hexdigit_def)

lemma UUID_init_malformed:
  "UUID_init ''not-a-uuid'' = Inl (ValueError ''badly formed hexadecimal UUID string'')"
  by (simp add: UUID_init_def str_strip_def)


subsection \<open>Encoding and decoding identifiers\<close>

text \<open>
  Claim C5. For every identifier \<open>u\<close> (a 128-bit UUID) and every dialect, encoding yields the
  hyphenated text of \<open>u\<close>, decoding that text yields \<open>u\<close> again, so decode after encode is
  the identity and the text of the decoded identifier is the text of the original. The
  same holds when the identifier is handed in as its canonical text.
\<close>

theorem UUID_roundtrip:
  "UUID_process_bind_param (Some (UUID_obj u)) d = Inr (Some (uuid_str u))
   \<and> UUID_process_result_value (Some (Text (uuid_str u))) d = Inr (Some u)
   \<and> UUID_store_and_load (Some (UUID_obj u)) d = Inr (Some u)
   \<and> UUID_store_and_load (Some (Text (uuid_str u))) d = Inr (Some u)
   \<and> (case UUID_store_and_load (Some (UUID_obj u)) d of
         Inr (Some u') \<Rightarrow> uuid_str u' = uuid_str u
       | _ \<Rightarrow> False)"
  by (simp add: UUID_process_bind_param_def UUID_process_result_value_def
      UUID_store_and_load_def UUID_init_uuid_str)

theorem UUID_roundtrip_witness:
  "UUID_process_bind_param (Some (UUID_obj 0x12345678123456781234567812345678)) sqlite
     = Inr (Some ''12345678-1234-5678-1234-567812345678'')
   \<and> UUID_process_bind_param (Some (UUID_obj 0x12345678123456781234567812345678)) postgresql
     = Inr (Some ''12345678-1234-5678-1234-567812345678'')
   \<and> UUID_store_and_load (Some (UUID_obj 0x12345678123456781234567812345678)) sqlite
     = Inr (Some 0x12345678123456781234567812345678)
   \<and> UUID_store_and_load (Some (UUID_obj 0x12345678123456781234567812345678)) postgresql
     = Inr (Some 0x12345678123456781234567812345678)"
  using UUID_roundtrip [of "0x12345678123456781234567812345678" sqlite]
    UUID_roundtrip [of "0x12345678123456781234567812345678" postgresql]
  by (simp only: uuid_str_example)

text \<open>
  Claim C6 says that on both dialects encoding a textual input parses it and fails on text
  that is not a valid identifier. On the postgresql dialect the branch
  \<^verbatim>\<open>elif dialect.name == "postgresql": return str(value)\<close> comes first: the text is handed
  to the driver as it is, although \<^verbatim>\<open>uuid.UUID\<close> rejects it.
\<close>

theorem UUID_bind_param_postgresql_passes_malformed_text:
  "UUID_init ''not-a-uuid'' = Inl (ValueError ''badly formed hexadecimal UUID string'')
   \<and> UUID_process_bind_param (Some (Text ''not-a-uuid'')) postgresql = Inr (Some ''not-a-uuid'')"
  by (simp add: UUID_init_malformed UUID_process_bind_param_def)

text \<open>
  Claim C6, amended. On every dialect other than postgresql (so on sqlite), encoding a
  textual input calls \<^verbatim>\<open>uuid.UUID\<close> on it: the encoding fails with that constructor's
  \<^verbatim>\<open>ValueError\<close> exactly when the constructor fails, and otherwise yields the canonical
  hyphenated text of the parsed identifier. Text that, once the \<^verbatim>\<open>urn:\<close> and \<^verbatim>\<open>uuid:\<close>
  markers, surrounding braces and hyphens are removed, is not 32 characters long is among the text the
  constructor rejects. On the postgresql dialect the text is passed through unchanged.
\<close>

theorem UUID_bind_param_text:
  "(name d \<noteq> ''postgresql'' \<longrightarrow>
      UUID_process_bind_param (Some (Text s)) d
        = (case UUID_init s of Inl e \<Rightarrow> Inl e | Inr u \<Rightarrow> Inr (Some (uuid_str u)))
      \<and> (isl (UUID_process_bind_param (Some (Text s)) d) \<longleftrightarrow> isl (UUID_init s)))
   \<and> (length (str_remove ''-'' (str_strip ''{}'' (str_remove ''uuid:'' (str_remove ''urn:'' s))))
         \<noteq> 32 \<longrightarrow>
        UUID_init s = Inl (ValueError ''badly formed hexadecimal UUID string''))
   \<and> (name d = ''postgresql'' \<longrightarrow> UUID_process_bind_param (Some (Text s)) d = Inr (Some s))"
  by (auto simp: UUID_process_bind_param_def UUID_init_def Let_def split: sum.splits)

theorem UUID_bind_param_text_witness:
  "UUID_process_bind_param (Some (Text ''not-a-uuid'')) sqlite
     = Inl (ValueError ''badly formed hexadecimal UUID string'')
   \<and> UUID_process_bind_param (Some (Text ''12345678-1234-5678-1234-567812345678'')) sqlite
     = Inr (Some ''12345678-1234-5678-1234-567812345678'')
   \<and> UUID_process_bind_param (Some (Text ''not-a-uuid'')) postgresql = Inr (Some ''not-a-uuid'')"
proof -
  have n: "name sqlite \<noteq> ''postgresql''" "name postgresql = ''postgresql''" by simp_all
  have a: "UUID_process_bind_param (Some (Text ''not-a-uuid'')) sqlite
             = Inl (ValueError ''badly formed hexadecimal UUID string'')"
    using UUID_bind_param_text [of sqlite "''not-a-uuid''"] n(1)
    by (simp only: UUID_init_malformed sum.case) blast
  have "UUID_init ''12345678-1234-5678-1234-567812345678''
          = Inr 0x12345678123456781234567812345678"
    using UUID_init_uuid_str [of "0x12345678123456781234567812345678"]
    by (simp only: uuid_str_example)
  then have b: "UUID_process_bind_param (Some (Text ''12345678-1234-5678-1234-567812345678'')) sqlite
             = Inr (Some ''12345678-1234-5678-1234-567812345678'')"
    using UUID_bind_param_text [of sqlite "''12345678-1234-5678-1234-567812345678''"] n(1)
    by (simp only: sum.case uuid_str_example) blast
  have c: "UUID_process_bind_param (Some (Text ''not-a-uuid'')) postgresql = Inr (Some ''not-a-uuid'')"
    using UUID_bind_param_text [of postgresql "''not-a-uuid''"] n(2) by blast
  from a b c show ?thesis by blast
qed

section \<open>Decoding a stored null\<close>

text \<open>
  Claim C10. For each of the three adapters (Timestamp, UUID, Pydantic) and every dialect,
  \<^verbatim>\<open>process_result_value\<close> applied to \<^verbatim>\<open>None\<close> returns \<^verbatim>\<open>None\<close> and raises nothing; for
  Pydantic this holds whatever the pydantic type does on other values.
\<close>

theorem process_result_value_None:
  "Timestamp_process_result_value None d = Inr None
   \<and> UUID_process_result_value None d = Inr None
   \<and> Pydantic_process_result_value parse None d = Inr None"
  by (simp add: Timestamp_process_result_value_def UUID_process_result_value_def
      Pydantic_process_result_value_def)

theorem process_result_value_None_witness:
  "Timestamp_process_result_value None sqlite = Inr None
   \<and> UUID_process_result_value None postgresql = Inr None
   \<and> Pydantic_process_result_value (\<lambda>v. Inl ValidationError :: error + unit) None sqlite = Inr None"
  using process_result_value_None [of sqlite "\<lambda>v. Inl ValidationError :: error + unit"]
    process_result_value_None [of postgresql "\<lambda>v. Inl ValidationError :: error + unit"]
  by blast

section \<open>Properties of the JSON predicates\<close>

subsection \<open>Both compilations on arrays of primitive values\<close>

lemma evaluate_or_True:
  "list_all (evaluate row) (or_True es) = list_all (evaluate row) es"
  by (simp add: or_True_def)

lemma json_each_value_text:
  "\<not> is_container x \<Longrightarrow> json_each_value x = SqlText s \<longleftrightarrow> x = JStr s"
  by (cases x) auto

lemma filter_holds_text: "filter_holds (ValueEq (JStr s)) = (\<lambda>x. x = SqlText s)"
  by (rule ext) simp

lemma exists_text_row:
  "list_all (\<lambda>x. \<not> is_container x) xs \<Longrightarrow>
     list_ex (\<lambda>x. x = SqlText s) (map json_each_value xs) \<longleftrightarrow> JStr s \<in> set xs"
  by (induction xs) (auto simp: json_each_value_text)

lemma contains_agree:
  assumes "list_all (\<lambda>x. \<not> is_container x) xs" "list_all is_str vs" "row e = JArr xs"
  shows "evaluate row (json_contains_postgresql e vs) = evaluate row (json_contains_sqlite e vs)"
proof -
  have pg: "evaluate row (json_contains_postgresql e vs) = list_all (\<lambda>v. v \<in> set xs) vs"
    using assms(2,3)
    by (induction vs) (auto simp: json_contains_postgresql_def jsonb_contains_def
        list_all_iff elim: is_str.elims)
  have nc: "map (\<lambda>v. if is_container v then JStr (dumps_compact v) else v) vs = vs"
    using assms(2) by (induction vs) (auto elim: is_str.elims)
  have "evaluate row (json_contains_sqlite e vs)
          = list_all (\<lambda>v. list_ex (filter_holds (ValueEq v)) (map json_each_value xs)) vs"
    by (simp add: json_contains_sqlite_def nc evaluate_or_True assms(3) list.pred_map comp_def)
  also have "\<dots> = list_all (\<lambda>v. v \<in> set xs) vs"
    using assms(2)
  proof (induction vs)
    case Nil
    then show ?case by simp
  next
    case (Cons v vs)
    then obtain s where v: "v = JStr s" by (auto elim: is_str.elims)
    have "list_ex (filter_holds (ValueEq v)) (map json_each_value xs) \<longleftrightarrow> v \<in> set xs"
      using exists_text_row [OF assms(1), of s] by (simp add: v filter_holds_text)
    then show ?case using Cons by simp
  qed
  finally show ?thesis using pg by simp
qed

lemma text_row_iff:
  assumes "list_all (\<lambda>x. \<not> is_container x) xs"
  shows "(\<exists>x \<in> set xs. json_each_value x = SqlText k) \<longleftrightarrow> JStr k \<in> set xs"
proof
  assume "\<exists>x \<in> set xs. json_each_value x = SqlText k"
  then obtain x where x: "x \<in> set xs" "json_each_value x = SqlText k" by blast
  from assms x(1) have "\<not> is_container x" by (simp add: list_all_iff)
  with x show "JStr k \<in> set xs" by (simp add: json_each_value_text)
next
  assume "JStr k \<in> set xs"
  moreover have "json_each_value (JStr k) = SqlText k" by simp
  ultimately show "\<exists>x \<in> set xs. json_each_value x = SqlText k" by blast
qed

lemma has_any_agree:
  assumes "list_all (\<lambda>x. \<not> is_container x) xs" "row e = JArr xs"
  shows "evaluate row (json_has_any_key_postgresql e ks)
           = evaluate row (json_has_any_key_sqlite e ks)"
proof -
  have "evaluate row (json_has_any_key_sqlite e ks)
          \<longleftrightarrow> (\<exists>x \<in> set xs. \<exists>k \<in> set ks. json_each_value x = SqlText k)"
    by (simp add: json_has_any_key_sqlite_def assms(2) list_ex_iff)
  also have "\<dots> \<longleftrightarrow> (\<exists>k \<in> set ks. \<exists>x \<in> set xs. json_each_value x = SqlText k)"
    by blast
  also have "\<dots> \<longleftrightarrow> (\<exists>k \<in> set ks. JStr k \<in> set xs)"
    by (simp only: text_row_iff [OF assms(1)])
  also have "\<dots> \<longleftrightarrow> evaluate row (json_has_any_key_postgresql e ks)"
    by (simp add: json_has_any_key_postgresql_def Let_def assms(2) list_ex_iff)
  finally show ?thesis by simp
qed

lemma has_all_agree:
  assumes "list_all (\<lambda>x. \<not> is_container x) xs" "row e = JArr xs"
  shows "evaluate row (json_has_all_keys_postgresql e ks)
           = evaluate row (json_has_all_keys_sqlite e ks)"
proof -
  have "evaluate row (json_has_all_keys_sqlite e ks)
          \<longleftrightarrow> list_all (\<lambda>k. evaluate row (json_has_any_key_sqlite e [k])) ks"
    by (simp add: json_has_all_keys_sqlite_def evaluate_or_True list.pred_map comp_def)
  also have "\<dots> \<longleftrightarrow> (\<forall>k \<in> set ks. \<exists>x \<in> set xs. json_each_value x = SqlText k)"
    by (simp add: json_has_any_key_sqlite_def assms(2) list_all_iff list_ex_iff) (metis (full_types) image_iff)
  also have "\<dots> \<longleftrightarrow> (\<forall>k \<in> set ks. JStr k \<in> set xs)"
    by (simp only: text_row_iff [OF assms(1)])
  also have "\<dots> \<longleftrightarrow> evaluate row (json_has_all_keys_postgresql e ks)"
    by (simp add: json_has_all_keys_postgresql_def Let_def assms(2) list_all_iff)
  finally show ?thesis by simp
qed

text \<open>
  Claim C1. Every predicate should evaluate alike on both dialects against every document.
  The code breaks this for the key predicates on objects: \<^verbatim>\<open>json_has_any_key_sqlite\<close>, and
  through it \<^verbatim>\<open>json_has_all_keys_sqlite\<close>, filters on \<^verbatim>\<open>json_each.value\<close>, the values of a
  document's members, whereas \<^verbatim>\<open>?|\<close> and \<^verbatim>\<open>?&\<close> on postgresql test the keys of an object.
  Against \<^verbatim>\<open>{"a": 1}\<close> the predicates \<^verbatim>\<open>json_has_any_key(expr, ["a"])\<close> and
  \<^verbatim>\<open>json_has_all_keys(expr, ["a"])\<close> are true on postgresql and false on sqlite.
\<close>

theorem has_any_key_differs_on_object:
  "json_has_any_key ''data'' [JStr ''a''] = Inr (Json_has_any_key ''data'' [''a''])
   \<and> evaluate (\<lambda>_. JObj [(''a'', JInt 1)]) (compile postgresql (Json_has_any_key ''data'' [''a'']))
   \<and> \<not> evaluate (\<lambda>_. JObj [(''a'', JInt 1)]) (compile sqlite (Json_has_any_key ''data'' [''a'']))
   \<and> evaluate (\<lambda>_. JObj [(''a'', JInt 1)]) (compile postgresql (Json_has_all_keys ''data'' [''a'']))
   \<and> \<not> evaluate (\<lambda>_. JObj [(''a'', JInt 1)]) (compile sqlite (Json_has_all_keys ''data'' [''a'']))"
  by (simp add: json_has_any_key_def json_has_any_key_postgresql_def
      json_has_all_keys_postgresql_def Let_def json_has_any_key_sqlite_def
      json_has_all_keys_sqlite_def or_True_def)

text \<open>
  Property X1. Where the two compilations do agree: for every document that is a JSON
  array of primitive values (strings, integers, booleans, null) and every predicate whose
  values are strings (\<^verbatim>\<open>json_contains\<close> over strings, \<^verbatim>\<open>json_has_any_key\<close>,
  \<^verbatim>\<open>json_has_all_keys\<close>), the predicate compiled for postgresql and the predicate compiled
  for sqlite evaluate to the same boolean.
\<close>

theorem predicates_agree_on_scalar_arrays:
  "scalar_array (row (json_expr el)) \<Longrightarrow> string_values el \<Longrightarrow>
     evaluate row (compile postgresql el) = evaluate row (compile sqlite el)"
proof -
  assume a: "scalar_array (row (json_expr el))" and b: "string_values el"
  from a obtain xs where xs: "row (json_expr el) = JArr xs"
      "list_all (\<lambda>x. \<not> is_container x) xs"
    by (auto simp: scalar_array_def split: json.splits)
  show ?thesis
  proof (cases el)
    case (Json_contains e vs)
    then show ?thesis using xs b contains_agree [of xs vs row e]
      by (simp add: string_values_def)
  next
    case (Json_has_any_key e ks)
    then show ?thesis using xs has_any_agree [of xs row e ks] by simp
  next
    case (Json_has_all_keys e ks)
    then show ?thesis using xs has_all_agree [of xs row e ks] by simp
  qed
qed

theorem predicates_agree_on_scalar_arrays_witness:
  "scalar_array (JArr [JStr ''x'', JStr ''y'', JInt 3])
   \<and> string_values (Json_contains ''tags'' [JStr ''y''])
   \<and> evaluate (\<lambda>_. JArr [JStr ''x'', JStr ''y'', JInt 3])
         (compile postgresql (Json_contains ''tags'' [JStr ''y'']))
       = evaluate (\<lambda>_. JArr [JStr ''x'', JStr ''y'', JInt 3])
           (compile sqlite (Json_contains ''tags'' [JStr ''y'']))
   \<and> evaluate (\<lambda>_. JArr [JStr ''x'', JStr ''y'', JInt 3])
         (compile postgresql (Json_has_all_keys ''tags'' [''x'', ''z'']))
       = evaluate (\<lambda>_. JArr [JStr ''x'', JStr ''y'', JInt 3])
           (compile sqlite (Json_has_all_keys ''tags'' [''x'', ''z'']))"
proof -
  let ?row = "\<lambda>_ :: column. JArr [JStr ''x'', JStr ''y'', JInt 3]"
  have a: "scalar_array (JArr [JStr ''x'', JStr ''y'', JInt 3])"
    by (simp add: scalar_array_def)
  have b: "string_values (Json_contains ''tags'' [JStr ''y''])"
       "string_values (Json_has_all_keys ''tags'' [''x'', ''z''])"
    by (simp_all add: string_values_def)
  have c: "evaluate ?row (compile postgresql (Json_contains ''tags'' [JStr ''y'']))
             = evaluate ?row (compile sqlite (Json_contains ''tags'' [JStr ''y'']))"
    by (rule predicates_agree_on_scalar_arrays) (use a b in simp_all)
  have d: "evaluate ?row (compile postgresql (Json_has_all_keys ''tags'' [''x'', ''z'']))
             = evaluate ?row (compile sqlite (Json_has_all_keys ''tags'' [''x'', ''z'']))"
    by (rule predicates_agree_on_scalar_arrays) (use a b in simp_all)
  from a b(1) c d show ?thesis by (intro conjI)
qed

subsection \<open>Empty key sets\<close>

lemma well_formed_or_True:
  "list_all well_formed es \<Longrightarrow> well_formed (SqlAnd (or_True es))"
  by (simp add: or_True_def)

lemma compile_well_formed: "well_formed (compile d el)"
proof (cases el)
  case (Json_contains e vs)
  then show ?thesis
    by (simp add: json_contains_postgresql_def json_contains_sqlite_def Let_def
        well_formed_or_True list.pred_map comp_def list_all_iff del: well_formed.simps(2))
next
  case (Json_has_any_key e ks)
  then show ?thesis
    by (simp add: json_has_any_key_postgresql_def json_has_any_key_sqlite_def Let_def)
next
  case (Json_has_all_keys e ks)
  then show ?thesis
    by (simp add: json_has_all_keys_postgresql_def json_has_all_keys_sqlite_def
        json_has_any_key_sqlite_def Let_def well_formed_or_True list.pred_map comp_def
        list_all_iff del: well_formed.simps(2))
qed

text \<open>
  Claim C2 says that \<^verbatim>\<open>has_any_key(expr, [])\<close> and \<^verbatim>\<open>has_all_keys(expr, [])\<close> are true against
  every document on both dialects. \<^verbatim>\<open>has_any_key(expr, [])\<close> is false on both: on sqlite no
  row of \<^verbatim>\<open>json_each\<close> is in the empty list (\<^verbatim>\<open>json_has_any_key_sqlite\<close> has no
  \<^verbatim>\<open>or [True]\<close>), and on postgresql \<^verbatim>\<open>?|\<close> over the empty array finds no key.
\<close>

theorem has_any_key_empty_is_false_example:
  "json_has_any_key ''tags'' [] = Inr (Json_has_any_key ''tags'' [])
   \<and> execute (\<lambda>_. JArr [JStr ''a'']) (compile sqlite (Json_has_any_key ''tags'' [])) = Inr False
   \<and> execute (\<lambda>_. JArr [JStr ''a'']) (compile postgresql (Json_has_any_key ''tags'' []))
       = Inr False"
  by (simp add: json_has_any_key_def json_has_any_key_postgresql_def Let_def
      json_has_any_key_sqlite_def execute_def)

text \<open>
  Claim C2, amended. For every expression, both constructors accept the empty key set and
  both predicates compile to well-formed SQL on both dialects (on postgresql because the
  empty array is cast to an array of strings, on sqlite because the empty conjunction is
  replaced by the literal true); \<^verbatim>\<open>has_all_keys(expr, [])\<close> evaluates to true against every
  document on both dialects, and \<^verbatim>\<open>has_any_key(expr, [])\<close> evaluates to false against
  every document on both dialects.
\<close>

theorem empty_key_sets:
  "json_has_any_key e [] = Inr (Json_has_any_key e [])
   \<and> json_has_all_keys e [] = Inr (Json_has_all_keys e [])
   \<and> well_formed (compile d (Json_has_any_key e []))
   \<and> well_formed (compile d (Json_has_all_keys e []))
   \<and> execute row (compile d (Json_has_all_keys e [])) = Inr True
   \<and> execute row (compile d (Json_has_any_key e [])) = Inr False"
  by (simp add: json_has_any_key_def json_has_all_keys_def execute_def
      json_has_all_keys_postgresql_def json_has_all_keys_sqlite_def or_True_def
      json_has_any_key_postgresql_def json_has_any_key_sqlite_def Let_def list_ex_iff)

theorem empty_key_sets_witness:
  "execute (\<lambda>_. JArr [JStr ''a'']) (compile sqlite (Json_has_all_keys ''tags'' [])) = Inr True
   \<and> execute (\<lambda>_. JArr [JStr ''a'']) (compile postgresql (Json_has_all_keys ''tags'' []))
       = Inr True
   \<and> execute (\<lambda>_. JObj [(''a'', JInt 1)]) (compile sqlite (Json_has_any_key ''tags'' []))
       = Inr False
   \<and> execute (\<lambda>_. JObj [(''a'', JInt 1)]) (compile postgresql (Json_has_any_key ''tags'' []))
       = Inr False
   \<and> well_formed (compile postgresql (Json_has_any_key ''tags'' []))
   \<and> well_formed (compile sqlite (Json_has_all_keys ''tags'' []))"
  using empty_key_sets [of "''tags''" sqlite "\<lambda>_. JArr [JStr ''a'']"]
    empty_key_sets [of "''tags''" postgresql "\<lambda>_. JArr [JStr ''a'']"]
    empty_key_sets [of "''tags''" sqlite "\<lambda>_. JObj [(''a'', JInt 1)]"]
    empty_key_sets [of "''tags''" postgresql "\<lambda>_. JObj [(''a'', JInt 1)]"]
  by blast

subsection \<open>The containment scenario\<close>

lemma dumps_a1: "dumps_compact (JObj [(''a'', JInt 1)]) = ''{\"a\":1}''"
  by (simp add: dumps_str_def escape_char_def str_int_def hexdigit_def)

lemma dumps_12: "dumps_compact (JArr [JInt 1, JInt 2]) = ''[1,2]''"
  by (simp add: str_int_def hexdigit_def)

text \<open>
  Claim C3 says that \<^verbatim>\<open>Contains(expr, [{"a": 1}])\<close> against the document
  \<^verbatim>\<open>{"a": 1, "b": [1,2]}\<close> is true on both dialects. It is false on both. On postgresql the
  right operand of \<^verbatim>\<open>@>\<close> is the list, a JSON array, and an object does not contain an
  array. On sqlite the dumped text \<^verbatim>\<open>{"a":1}\<close> is compared with the member values \<^verbatim>\<open>1\<close> and
  \<^verbatim>\<open>[1,2]\<close>, and equals neither.
\<close>

theorem contains_scenario_is_false:
  "json_contains ''data'' [JObj [(''a'', JInt 1)]]
     = Inr (Json_contains ''data'' [JObj [(''a'', JInt 1)]])
   \<and> \<not> evaluate (\<lambda>_. JObj [(''a'', JInt 1), (''b'', JArr [JInt 1, JInt 2])])
         (compile postgresql (Json_contains ''data'' [JObj [(''a'', JInt 1)]]))
   \<and> \<not> evaluate (\<lambda>_. JObj [(''a'', JInt 1), (''b'', JArr [JInt 1, JInt 2])])
         (compile sqlite (Json_contains ''data'' [JObj [(''a'', JInt 1)]]))"
  by (simp add: json_contains_def json_contains_postgresql_def jsonb_contains_def
      json_contains_sqlite_def or_True_def dumps_a1 dumps_12 del: dumps_compact.simps)

text \<open>
  Claim C3, amended. For every expression, \<^verbatim>\<open>Contains(expr, [{"a": 1}])\<close> against the
  document \<^verbatim>\<open>{"a": 1, "b": [1,2]}\<close> is false on both dialects; against a document that is an
  array with the element \<^verbatim>\<open>{"a": 1}\<close>, here \<^verbatim>\<open>[{"a": 1}, [1,2]]\<close>, it is true on both.
\<close>

theorem contains_scenario:
  "\<not> evaluate (\<lambda>_. JObj [(''a'', JInt 1), (''b'', JArr [JInt 1, JInt 2])])
       (compile postgresql (Json_contains e [JObj [(''a'', JInt 1)]]))
   \<and> \<not> evaluate (\<lambda>_. JObj [(''a'', JInt 1), (''b'', JArr [JInt 1, JInt 2])])
       (compile sqlite (Json_contains e [JObj [(''a'', JInt 1)]]))
   \<and> evaluate (\<lambda>_. JArr [JObj [(''a'', JInt 1)], JArr [JInt 1, JInt 2]])
       (compile postgresql (Json_contains e [JObj [(''a'', JInt 1)]]))
   \<and> evaluate (\<lambda>_. JArr [JObj [(''a'', JInt 1)], JArr [JInt 1, JInt 2]])
       (compile sqlite (Json_contains e [JObj [(''a'', JInt 1)]]))"
  by (simp add: json_contains_postgresql_def jsonb_contains_def
      json_contains_sqlite_def or_True_def dumps_a1 dumps_12 del: dumps_compact.simps)

theorem contains_scenario_witness:
  "\<not> evaluate (\<lambda>_. JObj [(''a'', JInt 1), (''b'', JArr [JInt 1, JInt 2])])
       (compile postgresql (Json_contains ''data'' [JObj [(''a'', JInt 1)]]))
   \<and> \<not> evaluate (\<lambda>_. JObj [(''a'', JInt 1), (''b'', JArr [JInt 1, JInt 2])])
       (compile sqlite (Json_contains ''data'' [JObj [(''a'', JInt 1)]]))
   \<and> evaluate (\<lambda>_. JArr [JObj [(''a'', JInt 1)], JArr [JInt 1, JInt 2]])
       (compile postgresql (Json_contains ''data'' [JObj [(''a'', JInt 1)]]))
   \<and> evaluate (\<lambda>_. JArr [JObj [(''a'', JInt 1)], JArr [JInt 1, JInt 2]])
       (compile sqlite (Json_contains ''data'' [JObj [(''a'', JInt 1)]]))"
  using contains_scenario [of "''data''"] .

section \<open>Properties of the registries\<close>

subsection \<open>The two outcomes of a successful call\<close>

lemma get_engine_cached:
  assumes "ENGINES st (engine_key env loop url echo) = Some e"
  shows "get_engine env loop url echo st = Inr (e, st)"
  using assms unfolding get_engine_def get_engine_begin_def engine_key_def Let_def
  by (simp only: option.case get_engine_state.case)

lemma get_engine_begin_fresh:
  assumes "ENGINES st (engine_key env loop url echo) = None"
  shows "get_engine_begin env loop url echo st =
     (case create_async_engine env (next_id st) (resolved_url env url) (resolved_echo env echo)
             (pool_kwargs (resolved_url env url)) of
        Inl err \<Rightarrow> Raised err
      | Inr engine \<Rightarrow>
          (case is_new_sqlite_database env engine of
             Inl err \<Rightarrow> Raised err
           | Inr new \<Rightarrow>
               if new
               then Awaiting_create_db (engine_key env loop url echo) engine
                      (st\<lparr>next_id := Suc (next_id st)\<rparr>)
               else Returned engine
                      (st\<lparr>next_id := Suc (next_id st),
                          ENGINES := (ENGINES st)(engine_key env loop url echo \<mapsto> engine)\<rparr>)))"
proof -
  let ?c = "create_async_engine env (next_id st) (resolved_url env url) (resolved_echo env echo)
             (pool_kwargs (resolved_url env url))"
  show ?thesis
  proof (cases ?c)
    case (Inl err)
    then show ?thesis
      using assms unfolding get_engine_begin_def engine_key_def Let_def
      by (simp only: option.case sum.case)
  next
    case (Inr engine)
    show ?thesis
    proof (cases "is_new_sqlite_database env engine")
      case (Inl err)
      then show ?thesis
        using assms Inr unfolding get_engine_begin_def engine_key_def Let_def
        by (simp only: option.case sum.case)
    next
      case new: (Inr new)
      then show ?thesis
        using assms Inr unfolding get_engine_begin_def engine_key_def Let_def
        by (cases new) simp_all
    qed
  qed
qed

lemma get_engine_fresh:
  assumes "ENGINES st (engine_key env loop url echo) = None"
  shows "get_engine env loop url echo st =
     (case create_async_engine env (next_id st) (resolved_url env url) (resolved_echo env echo)
             (pool_kwargs (resolved_url env url)) of
        Inl err \<Rightarrow> Inl err
      | Inr engine \<Rightarrow>
          (case is_new_sqlite_database env engine of
             Inl err \<Rightarrow> Inl err
           | Inr new \<Rightarrow>
               Inr (engine,
                    st\<lparr>next_id := Suc (next_id st),
                       create_db_calls := create_db_calls st @ (if new then [engine] else []),
                       ENGINES := (ENGINES st)(engine_key env loop url echo \<mapsto> engine)\<rparr>)))"
  unfolding get_engine_def get_engine_begin_fresh [OF assms]
  by (simp add: get_engine_resume_def create_db_def Let_def split: sum.splits)

lemma create_async_engine_fields:
  assumes "create_async_engine env ident u ec kw = Inr e"
  shows "engine_id e = ident" "engine_url e = u" "engine_echo e = ec" "poolclass e = kw"
  using assms by (auto simp: create_async_engine_def split: sum.splits prod.splits)

lemma get_engine_cases:
  assumes "get_engine env loop url echo st = Inr (e, st')"
  obtains (cached) "ENGINES st (engine_key env loop url echo) = Some e" "st' = st"
  | (created) new where
      "ENGINES st (engine_key env loop url echo) = None"
      "create_async_engine env (next_id st) (resolved_url env url) (resolved_echo env echo)
         (pool_kwargs (resolved_url env url)) = Inr e"
      "is_new_sqlite_database env e = Inr new"
      "st' = st\<lparr>next_id := Suc (next_id st),
                create_db_calls := create_db_calls st @ (if new then [e] else []),
                ENGINES := (ENGINES st)(engine_key env loop url echo \<mapsto> e)\<rparr>"
proof (cases "ENGINES st (engine_key env loop url echo)")
  case (Some c)
  from get_engine_cached [OF Some] assms have "c = e" "st' = st" by simp_all
  with Some show ?thesis by (intro cached) simp_all
next
  case None
  let ?c = "create_async_engine env (next_id st) (resolved_url env url) (resolved_echo env echo)
             (pool_kwargs (resolved_url env url))"
  from assms obtain engine where c: "?c = Inr engine"
    unfolding get_engine_fresh [OF None] by (cases ?c) simp_all
  from assms obtain new where n: "is_new_sqlite_database env engine = Inr new"
    unfolding get_engine_fresh [OF None] c sum.case
    by (cases "is_new_sqlite_database env engine") simp_all
  from assms have "engine = e"
    and "st' = st\<lparr>next_id := Suc (next_id st),
                create_db_calls := create_db_calls st @ (if new then [engine] else []),
                ENGINES := (ENGINES st)(engine_key env loop url echo \<mapsto> engine)\<rparr>"
    unfolding get_engine_fresh [OF None] c n sum.case by auto
  with None c n show ?thesis by (intro created [of new]) simp_all
qed

lemma get_engine_caches:
  assumes "get_engine env loop url echo st = Inr (e, st')"
  shows "ENGINES st' (engine_key env loop url echo) = Some e"
  using assms by (cases rule: get_engine_cases) simp_all

lemma get_engine_again:
  assumes "get_engine env loop url echo st = Inr (e, st')"
  shows "get_engine env loop url echo st' = Inr (e, st')"
  by (rule get_engine_cached) (rule get_engine_caches [OF assms])

lemma get_engine_append_only:
  assumes "get_engine env loop url echo st = Inr (e, st')"
  shows "ENGINES st \<subseteq>\<^sub>m ENGINES st'" "SESSION_FACTORIES st' = SESSION_FACTORIES st"
  using assms by (cases rule: get_engine_cases; auto simp: map_le_def)+

lemma get_engine_bootstrap:
  assumes "get_engine env loop url echo st = Inr (e, st')"
  shows "create_db_calls st' = create_db_calls st @
           (if ENGINES st (engine_key env loop url echo) = None
               \<and> is_new_sqlite_database env e = Inr True
            then [e] else [])"
  using assms by (cases rule: get_engine_cases) auto

lemma get_engine_ok:
  assumes "registry_ok st" "get_engine env loop url echo st = Inr (e, st')"
  shows "registry_ok st'"
  using assms(2)
proof (cases rule: get_engine_cases)
  case cached
  then show ?thesis using assms(1) by simp
next
  case (created new)
  have id: "engine_id e = next_id st" by (rule create_async_engine_fields(1) [OF created(2)])
  have "ran ((ENGINES st)(engine_key env loop url echo \<mapsto> e)) \<subseteq> insert e (ran (ENGINES st))"
    by (auto simp: ran_def)
  then show ?thesis
    using assms(1) id unfolding registry_ok_def created(4)
    by (auto simp: less_Suc_eq)
qed

lemma get_engine_new_identity:
  assumes "registry_ok st" "get_engine env loop url echo st = Inr (e, st')"
    "ENGINES st (engine_key env loop url echo) = None"
  shows "e \<notin> ran (ENGINES st)" "e \<notin> set (create_db_calls st)"
proof -
  from assms(2,3) have "engine_id e = next_id st"
    by (cases rule: get_engine_cases) (auto dest: create_async_engine_fields(1))
  then show "e \<notin> ran (ENGINES st)" "e \<notin> set (create_db_calls st)"
    using assms(1) by (auto simp: registry_ok_def)
qed

lemma get_session_factory_cases:
  assumes "get_session_factory env loop bind st = Inr (f, st')"
  obtains b st1 where
    "case bind of None \<Rightarrow> get_engine env loop None None st = Inr (b, st1)
                 | Some b' \<Rightarrow> b = b' \<and> st1 = st"
    "SESSION_FACTORIES st' (loop, b) = Some f"
    "ENGINES st' = ENGINES st1"
    "SESSION_FACTORIES st1 \<subseteq>\<^sub>m SESSION_FACTORIES st'"
    "create_db_calls st' = create_db_calls st1"
    "next_id st1 \<le> next_id st'"
proof -
  define r where "r = (case bind of None \<Rightarrow> get_engine env loop None None st
                                  | Some b \<Rightarrow> Inr (b, st))"
  from assms obtain b st1 where r: "r = Inr (b, st1)"
    unfolding get_session_factory_def r_def [symmetric] by (cases r) auto
  have 1: "case bind of None \<Rightarrow> get_engine env loop None None st = Inr (b, st1)
                 | Some b' \<Rightarrow> b = b' \<and> st1 = st"
    using r unfolding r_def by (cases bind) auto
  from assms have res: "(let cache_key = (loop, b)
           in case SESSION_FACTORIES st1 cache_key of
                Some cached \<Rightarrow> Inr (cached, st1)
              | None \<Rightarrow>
                  (let factory = async_scoped_session (next_id st1) b
                   in Inr (factory,
                           st1\<lparr>next_id := Suc (next_id st1),
                              SESSION_FACTORIES := (SESSION_FACTORIES st1)(cache_key \<mapsto> factory)\<rparr>)))
          = (Inr (f, st') :: error + session_factory \<times> registry)"
    unfolding get_session_factory_def r_def [symmetric] r by simp
  show ?thesis
  proof (cases "SESSION_FACTORIES st1 (loop, b)")
    case None
    with res have "f = async_scoped_session (next_id st1) b"
      "st' = st1\<lparr>next_id := Suc (next_id st1),
                 SESSION_FACTORIES := (SESSION_FACTORIES st1)((loop, b) \<mapsto> f)\<rparr>"
      by (auto simp: Let_def)
    then show ?thesis using None by (intro that [OF 1]) (auto simp: map_le_def)
  next
    case (Some c)
    with res have "c = f" "st' = st1" by (simp_all add: Let_def)
    then show ?thesis using Some by (intro that [OF 1]) auto
  qed
qed

lemma get_session_factory_again:
  assumes "get_session_factory env loop bind st = Inr (f, st')"
  shows "get_session_factory env loop bind st' = Inr (f, st')"
  using assms
proof (cases rule: get_session_factory_cases)
  case (1 b st1)
  have "(case bind of None \<Rightarrow> get_engine env loop None None st'
                    | Some b' \<Rightarrow> Inr (b', st')) = Inr (b, st')"
  proof (cases bind)
    case None
    with 1(1) have g: "get_engine env loop None None st = Inr (b, st1)" by simp
    have "ENGINES st' (engine_key env loop None None) = Some b"
      using get_engine_caches [OF g] 1(3) by simp
    then show ?thesis using None get_engine_cached by simp
  next
    case (Some b')
    then show ?thesis using 1(1) by simp
  qed
  then show ?thesis
    unfolding get_session_factory_def using 1(2) by (simp add: Let_def)
qed

lemma get_session_factory_append_only:
  assumes "get_session_factory env loop bind st = Inr (f, st')"
  shows "ENGINES st \<subseteq>\<^sub>m ENGINES st'" "SESSION_FACTORIES st \<subseteq>\<^sub>m SESSION_FACTORIES st'"
proof -
  from assms obtain b st1 where
    1: "case bind of None \<Rightarrow> get_engine env loop None None st = Inr (b, st1)
                 | Some b' \<Rightarrow> b = b' \<and> st1 = st"
    and 3: "ENGINES st' = ENGINES st1"
    and 4: "SESSION_FACTORIES st1 \<subseteq>\<^sub>m SESSION_FACTORIES st'"
    by (rule get_session_factory_cases)
  have "ENGINES st \<subseteq>\<^sub>m ENGINES st1 \<and> SESSION_FACTORIES st1 = SESSION_FACTORIES st"
    using 1 get_engine_append_only by (cases bind) auto
  then show "ENGINES st \<subseteq>\<^sub>m ENGINES st'" "SESSION_FACTORIES st \<subseteq>\<^sub>m SESSION_FACTORIES st'"
    using 3 4 by simp_all
qed


subsection \<open>Concrete calls\<close>

lemma registry_ok_empty: "registry_ok empty_registry"
  by (simp add: registry_ok_def empty_registry_def)

lemma example_create:
  "create_async_engine example_environment i ''sqlite+aiosqlite:///:memory:'' ec kw =
     Inr \<lparr>engine_id = i, engine_url = ''sqlite+aiosqlite:///:memory:'', engine_echo = ec,
          poolclass = kw, dialect_name = ''sqlite'', url_database = Some '':memory:''\<rparr>"
  "create_async_engine example_environment i ''sqlite+aiosqlite:///orion.db'' ec kw =
     Inr \<lparr>engine_id = i, engine_url = ''sqlite+aiosqlite:///orion.db'', engine_echo = ec,
          poolclass = kw, dialect_name = ''sqlite'', url_database = Some ''orion.db''\<rparr>"
  "create_async_engine example_environment i ''postgresql+asyncpg://localhost/orion'' ec kw =
     Inr \<lparr>engine_id = i, engine_url = ''postgresql+asyncpg://localhost/orion'',
          engine_echo = ec, poolclass = kw, dialect_name = ''postgresql'',
          url_database = Some ''orion''\<rparr>"
  by (simp_all add: create_async_engine_def example_environment_def)

lemma example_new:
  "is_new_sqlite_database example_environment
     \<lparr>engine_id = i, engine_url = u, engine_echo = ec, poolclass = kw,
      dialect_name = ''sqlite'', url_database = Some db\<rparr> = Inr True"
  "is_new_sqlite_database example_environment
     \<lparr>engine_id = i, engine_url = u, engine_echo = ec, poolclass = kw,
      dialect_name = ''postgresql'', url_database = d\<rparr> = Inr False"
  by (simp_all add: is_new_sqlite_database_def example_environment_def)

lemma example_no_file: "path_exists example_environment p = False"
  by (simp add: example_environment_def)

lemma example_pool:
  "pool_kwargs ''postgresql+asyncpg://localhost/orion'' = None"
  "pool_kwargs ''sqlite+aiosqlite:///orion.db'' = None"
  "pool_kwargs ''sqlite+aiosqlite:///:memory:'' = Some ''SingletonThreadPool''"
  by (simp_all add: pool_kwargs_def startswith_def)

lemma example_get_engine:
  "get_engine example_environment loop (Some url) (Some echo) empty_registry =
     (case create_async_engine example_environment 0 url echo (pool_kwargs url) of
        Inl err \<Rightarrow> Inl err
      | Inr engine \<Rightarrow>
          (case is_new_sqlite_database example_environment engine of
             Inl err \<Rightarrow> Inl err
           | Inr new \<Rightarrow>
               Inr (engine,
                    \<lparr>ENGINES = [(loop, url, echo) \<mapsto> engine],
                     SESSION_FACTORIES = Map.empty, next_id = Suc 0,
                     create_db_calls = (if new then [engine] else [])\<rparr>)))"
proof -
  have "ENGINES empty_registry (engine_key example_environment loop (Some url) (Some echo)) = None"
    by (simp add: empty_registry_def)
  from get_engine_fresh [OF this] show ?thesis
    by (simp add: resolved_url_def resolved_echo_def engine_key_def empty_registry_def
        split: sum.splits)
qed

lemma example_overlap:
  "overlapping_calls example_environment 0 (Some ''sqlite+aiosqlite:///:memory:'') (Some False)
     empty_registry =
   Some ((\<lparr>engine_id = 0, engine_url = ''sqlite+aiosqlite:///:memory:'', engine_echo = False,
            poolclass = Some ''SingletonThreadPool'', dialect_name = ''sqlite'',
            url_database = Some '':memory:''\<rparr>,
          \<lparr>ENGINES = [(0, ''sqlite+aiosqlite:///:memory:'', False) \<mapsto>
              \<lparr>engine_id = 0, engine_url = ''sqlite+aiosqlite:///:memory:'',
               engine_echo = False, poolclass = Some ''SingletonThreadPool'',
               dialect_name = ''sqlite'', url_database = Some '':memory:''\<rparr>],
           SESSION_FACTORIES = Map.empty, next_id = 2,
           create_db_calls =
             [\<lparr>engine_id = 0, engine_url = ''sqlite+aiosqlite:///:memory:'',
               engine_echo = False, poolclass = Some ''SingletonThreadPool'',
               dialect_name = ''sqlite'', url_database = Some '':memory:''\<rparr>]\<rparr>),
         (\<lparr>engine_id = 1, engine_url = ''sqlite+aiosqlite:///:memory:'', engine_echo = False,
            poolclass = Some ''SingletonThreadPool'', dialect_name = ''sqlite'',
            url_database = Some '':memory:''\<rparr>,
          \<lparr>ENGINES = [(0, ''sqlite+aiosqlite:///:memory:'', False) \<mapsto>
              \<lparr>engine_id = 1, engine_url = ''sqlite+aiosqlite:///:memory:'',
               engine_echo = False, poolclass = Some ''SingletonThreadPool'',
               dialect_name = ''sqlite'', url_database = Some '':memory:''\<rparr>],
           SESSION_FACTORIES = Map.empty, next_id = 2,
           create_db_calls =
             [\<lparr>engine_id = 0, engine_url = ''sqlite+aiosqlite:///:memory:'',
               engine_echo = False, poolclass = Some ''SingletonThreadPool'',
               dialect_name = ''sqlite'', url_database = Some '':memory:''\<rparr>,
              \<lparr>engine_id = 1, engine_url = ''sqlite+aiosqlite:///:memory:'',
               engine_echo = False, poolclass = Some ''SingletonThreadPool'',
               dialect_name = ''sqlite'', url_database = Some '':memory:''\<rparr>]\<rparr>))"
proof -
  let ?u = "Some ''sqlite+aiosqlite:///:memory:''"
  let ?k = "(0 :: nat, ''sqlite+aiosqlite:///:memory:'', False)"
  define a where "a = \<lparr>engine_id = 0, engine_url = ''sqlite+aiosqlite:///:memory:'',
    engine_echo = False, poolclass = Some ''SingletonThreadPool'', dialect_name = ''sqlite'',
    url_database = Some '':memory:''\<rparr>"
  define b where "b = \<lparr>engine_id = 1, engine_url = ''sqlite+aiosqlite:///:memory:'',
    engine_echo = False, poolclass = Some ''SingletonThreadPool'', dialect_name = ''sqlite'',
    url_database = Some '':memory:''\<rparr>"
  define s1 where "s1 = empty_registry\<lparr>next_id := Suc 0\<rparr>"
  define s2 where "s2 = empty_registry\<lparr>next_id := Suc (Suc 0)\<rparr>"
  have k: "engine_key example_environment 0 ?u (Some False) = ?k"
    by (simp add: engine_key_def resolved_url_def resolved_echo_def)
  have n: "ENGINES empty_registry (engine_key example_environment 0 ?u (Some False)) = None"
    "ENGINES s1 (engine_key example_environment 0 ?u (Some False)) = None"
    by (simp_all add: empty_registry_def s1_def)
  have r: "resolved_url example_environment ?u = ''sqlite+aiosqlite:///:memory:''"
    "resolved_echo example_environment (Some False) = False"
    by (simp_all add: resolved_url_def resolved_echo_def)
  have b1: "get_engine_begin example_environment 0 ?u (Some False) empty_registry
      = Awaiting_create_db ?k a s1"
    unfolding get_engine_begin_fresh [OF n(1)] r example_pool example_create sum.case
      example_new k
    by (simp add: a_def s1_def empty_registry_def)
  have b2: "get_engine_begin example_environment 0 ?u (Some False) s1
      = Awaiting_create_db ?k b s2"
    unfolding get_engine_begin_fresh [OF n(2)] r example_pool example_create sum.case
      example_new k
    by (simp add: b_def s1_def s2_def empty_registry_def)
  show ?thesis
    unfolding overlapping_calls_def b1 b2 get_engine_state.case
    by (simp add: get_engine_resume_def create_db_def Let_def a_def b_def s2_def
        empty_registry_def numeral_2_eq_2)
qed

subsection \<open>Idempotence and append-only caches\<close>

text \<open>
  Claim C7 says that for every key a second call returns the cached engine, that schema
  bootstrap runs exactly once for the key, and that both caches are append-only, with
  exactly one engine per key. Two runs show otherwise.

  Bootstrap is conditional: \<^verbatim>\<open>create_db\<close> is called only for a new sqlite database. For
  the URL \<^verbatim>\<open>postgresql+asyncpg://localhost/orion\<close> two successive calls return the same
  engine and \<^verbatim>\<open>create_db\<close> has not run at all.

  The test \<^verbatim>\<open>cache_key not in ENGINES\<close> and the store \<^verbatim>\<open>ENGINES[cache_key] = engine\<close>
  are separated by \<^verbatim>\<open>await create_db(engine)\<close>. When a second call for
  \<^verbatim>\<open>sqlite+aiosqlite:///:memory:\<close> begins while the first is suspended there, both calls
  create an engine and both bootstrap; the two calls return different engines, and the
  entry the first call stored under the key is replaced by the second.
\<close>

theorem bootstrap_not_exactly_once:
  "(case get_engine example_environment 0 (Some ''postgresql+asyncpg://localhost/orion'')
           (Some False) empty_registry of
      Inl err \<Rightarrow> False
    | Inr (e, st1) \<Rightarrow>
        get_engine example_environment 0 (Some ''postgresql+asyncpg://localhost/orion'')
          (Some False) st1 = Inr (e, st1)
        \<and> create_db_calls st1 = [])
   \<and> (case overlapping_calls example_environment 0 (Some ''sqlite+aiosqlite:///:memory:'')
             (Some False) empty_registry of
        None \<Rightarrow> False
      | Some ((a, s3), (b, s4)) \<Rightarrow>
          a \<noteq> b
          \<and> ENGINES s3 (0, ''sqlite+aiosqlite:///:memory:'', False) = Some a
          \<and> ENGINES s4 (0, ''sqlite+aiosqlite:///:memory:'', False) = Some b
          \<and> create_db_calls s4 = [a, b])"
proof -
  obtain e st1 where r: "get_engine example_environment 0
      (Some ''postgresql+asyncpg://localhost/orion'') (Some False) empty_registry = Inr (e, st1)"
    and c: "create_db_calls st1 = []"
    unfolding example_get_engine example_pool example_create sum.case example_new by simp
  from get_engine_again [OF r] r c have 1: "(case get_engine example_environment 0
           (Some ''postgresql+asyncpg://localhost/orion'') (Some False) empty_registry of
      Inl err \<Rightarrow> False
    | Inr (e, st1) \<Rightarrow>
        get_engine example_environment 0 (Some ''postgresql+asyncpg://localhost/orion'')
          (Some False) st1 = Inr (e, st1)
        \<and> create_db_calls st1 = [])" by simp
  have 2: "(case overlapping_calls example_environment 0 (Some ''sqlite+aiosqlite:///:memory:'')
             (Some False) empty_registry of
        None \<Rightarrow> False
      | Some ((a, s3), (b, s4)) \<Rightarrow>
          a \<noteq> b
          \<and> ENGINES s3 (0, ''sqlite+aiosqlite:///:memory:'', False) = Some a
          \<and> ENGINES s4 (0, ''sqlite+aiosqlite:///:memory:'', False) = Some b
          \<and> create_db_calls s4 = [a, b])"
    unfolding example_overlap by simp
  from 1 2 show ?thesis by (rule conjI)
qed

text \<open>
  Claim C7, amended. For calls that do not overlap (each call runs to its end before the
  next begins), in a state whose objects were all created earlier: when \<^verbatim>\<open>get_engine\<close>
  returns an engine, a second call with the same arguments in the same loop returns the
  identical engine and leaves the state as it is; the engine is cached under its key; every
  entry of \<^verbatim>\<open>ENGINES\<close> and \<^verbatim>\<open>SESSION_FACTORIES\<close> present before is present unchanged
  afterwards; \<^verbatim>\<open>create_db\<close> runs only in the call that creates the engine, and then only
  if the engine is for a new sqlite database (its dialect is sqlite and its database name
  contains \<^verbatim>\<open>:memory:\<close> or \<^verbatim>\<open>mode=memory\<close> or names a file that does not exist), so a
  newly created engine, which is none of the engines cached before, has been bootstrapped
  exactly once in that case and not at all otherwise. Likewise, when
  \<^verbatim>\<open>get_session_factory\<close> returns a factory, a second call returns the identical factory
  and changes nothing, and the call has changed or removed no entry of either cache.
\<close>

theorem registry_idempotent_append_only:
  assumes "registry_ok st"
  shows "(get_engine env loop url echo st = Inr (e, st') \<longrightarrow>
            get_engine env loop url echo st' = Inr (e, st')
          \<and> ENGINES st' (engine_key env loop url echo) = Some e
          \<and> ENGINES st \<subseteq>\<^sub>m ENGINES st' \<and> SESSION_FACTORIES st \<subseteq>\<^sub>m SESSION_FACTORIES st'
          \<and> create_db_calls st' = create_db_calls st @
               (if ENGINES st (engine_key env loop url echo) = None
                   \<and> is_new_sqlite_database env e = Inr True
                then [e] else [])
          \<and> (ENGINES st (engine_key env loop url echo) = None \<longrightarrow>
                e \<notin> ran (ENGINES st)
              \<and> count_list (create_db_calls st') e =
                  (if is_new_sqlite_database env e = Inr True then 1 else 0))
          \<and> registry_ok st')
       \<and> (get_session_factory env loop bind st = Inr (f, st2) \<longrightarrow>
            get_session_factory env loop bind st2 = Inr (f, st2)
          \<and> ENGINES st \<subseteq>\<^sub>m ENGINES st2 \<and> SESSION_FACTORIES st \<subseteq>\<^sub>m SESSION_FACTORIES st2)"
proof (intro conjI impI)
  assume g: "get_engine env loop url echo st = Inr (e, st')"
  show "get_engine env loop url echo st' = Inr (e, st')" by (rule get_engine_again [OF g])
  show "ENGINES st' (engine_key env loop url echo) = Some e" by (rule get_engine_caches [OF g])
  show "ENGINES st \<subseteq>\<^sub>m ENGINES st'" by (rule get_engine_append_only(1) [OF g])
  show "SESSION_FACTORIES st \<subseteq>\<^sub>m SESSION_FACTORIES st'"
    by (simp add: get_engine_append_only(2) [OF g])
  show b: "create_db_calls st' = create_db_calls st @
               (if ENGINES st (engine_key env loop url echo) = None
                   \<and> is_new_sqlite_database env e = Inr True
                then [e] else [])"
    by (rule get_engine_bootstrap [OF g])
  show "registry_ok st'" by (rule get_engine_ok [OF assms g])
  {
    assume n: "ENGINES st (engine_key env loop url echo) = None"
    show "e \<notin> ran (ENGINES st)" by (rule get_engine_new_identity(1) [OF assms g n])
    have "count_list (create_db_calls st) e = 0"
      using get_engine_new_identity(2) [OF assms g n] by (simp add: count_list_0_iff)
    then show "count_list (create_db_calls st') e =
                  (if is_new_sqlite_database env e = Inr True then 1 else 0)"
      unfolding b using n by simp
  }
next
  assume s: "get_session_factory env loop bind st = Inr (f, st2)"
  show "get_session_factory env loop bind st2 = Inr (f, st2)"
    by (rule get_session_factory_again [OF s])
  show "ENGINES st \<subseteq>\<^sub>m ENGINES st2" by (rule get_session_factory_append_only(1) [OF s])
  show "SESSION_FACTORIES st \<subseteq>\<^sub>m SESSION_FACTORIES st2"
    by (rule get_session_factory_append_only(2) [OF s])
qed

theorem registry_idempotent_append_only_witness:
  "registry_ok empty_registry
   \<and> (case get_engine example_environment 0 (Some ''sqlite+aiosqlite:///:memory:'') (Some False)
              empty_registry of
         Inl err \<Rightarrow> False
       | Inr (e, st1) \<Rightarrow>
           get_engine example_environment 0 (Some ''sqlite+aiosqlite:///:memory:'') (Some False)
             st1 = Inr (e, st1)
           \<and> create_db_calls st1 = [e]
           \<and> count_list (create_db_calls st1) e = 1)
   \<and> (case get_session_factory example_environment 0 None empty_registry of
         Inl err \<Rightarrow> False
       | Inr (f, st2) \<Rightarrow>
           get_session_factory example_environment 0 None st2 = Inr (f, st2)
           \<and> ENGINES st2 (0, ''sqlite+aiosqlite:///:memory:'', False) = Some (factory_bind f))"
proof -
  let ?url = "Some ''sqlite+aiosqlite:///:memory:''"
  obtain e st1 where r: "get_engine example_environment 0 ?url (Some False) empty_registry
      = Inr (e, st1)" and new: "is_new_sqlite_database example_environment e = Inr True"
    unfolding example_get_engine example_pool example_create sum.case example_new
    by (simp add: example_new)
  have n: "ENGINES empty_registry (engine_key example_environment 0 ?url (Some False)) = None"
    by (simp add: empty_registry_def)
  have d: "get_engine example_environment 0 None None empty_registry
      = get_engine example_environment 0 ?url (Some False) empty_registry"
    by (simp add: get_engine_def get_engine_begin_def resolved_url_def resolved_echo_def
        example_environment_def)
  have "\<exists>f st2. get_session_factory example_environment 0 None empty_registry = Inr (f, st2)
      \<and> ENGINES st2 (0, ''sqlite+aiosqlite:///:memory:'', False) = Some (factory_bind f)"
    unfolding get_session_factory_def option.case d
    unfolding example_get_engine example_pool example_create sum.case example_new
    by (simp add: Let_def async_scoped_session_def)
  then obtain f st2 where s: "get_session_factory example_environment 0 None empty_registry
      = Inr (f, st2)"
    and fb: "ENGINES st2 (0, ''sqlite+aiosqlite:///:memory:'', False) = Some (factory_bind f)"
    by blast
  from registry_idempotent_append_only [OF registry_ok_empty,
      of example_environment 0 ?url "Some False" e st1 None f st2] r s n new
  have "get_engine example_environment 0 ?url (Some False) st1 = Inr (e, st1)"
    "create_db_calls st1 = [e]" "count_list (create_db_calls st1) e = 1"
    "get_session_factory example_environment 0 None st2 = Inr (f, st2)"
    by (simp_all add: empty_registry_def)
  then show ?thesis using r s fb registry_ok_empty by simp
qed

subsection \<open>The pool of a new engine\<close>

text \<open>
  Claim C9 says that a new engine for an in-memory or a not-yet-existing sqlite file database
  gets the long-lived pool. The test is
  \<^verbatim>\<open>connection_url.startswith("sqlite") and ":memory:" in connection_url\<close>: for the file
  database \<^verbatim>\<open>sqlite+aiosqlite:///orion.db\<close>, which does not exist yet (so its tables are
  created), no pool class is passed.
\<close>

theorem new_file_database_gets_no_pool:
  "(case get_engine example_environment 0 (Some ''sqlite+aiosqlite:///orion.db'') (Some False)
           empty_registry of
      Inl err \<Rightarrow> False
    | Inr (e, st1) \<Rightarrow>
        dialect_name e = ''sqlite'' \<and> url_database e = Some ''orion.db''
        \<and> \<not> path_exists example_environment ''orion.db''
        \<and> is_new_sqlite_database example_environment e = Inr True
        \<and> poolclass e = None \<and> create_db_calls st1 = [e])"
  unfolding example_get_engine example_pool example_create sum.case example_new
  by (simp add: example_new example_no_file)

text \<open>
  Claim C9, amended. When \<^verbatim>\<open>get_engine\<close> creates a new engine, it configures the pool
  policy \<^verbatim>\<open>SingletonThreadPool\<close> exactly when the connection URL starts with \<^verbatim>\<open>sqlite\<close> and
  contains \<^verbatim>\<open>:memory:\<close>; for every other target, a sqlite file database that does not
  exist yet included, no pool policy is applied.
\<close>

theorem pool_policy:
  "get_engine env loop url echo st = Inr (e, st') \<Longrightarrow>
   ENGINES st (engine_key env loop url echo) = None \<Longrightarrow>
     poolclass e =
       (if startswith (resolved_url env url) ''sqlite'' \<and> str_in '':memory:'' (resolved_url env url)
        then Some ''SingletonThreadPool'' else None)"
  by (cases rule: get_engine_cases)
     (auto simp: pool_kwargs_def dest!: create_async_engine_fields(4))

theorem pool_policy_witness:
  "(case get_engine example_environment 0 (Some ''sqlite+aiosqlite:///:memory:'') (Some False)
           empty_registry of
      Inl err \<Rightarrow> False
    | Inr (e, st1) \<Rightarrow> poolclass e = Some ''SingletonThreadPool'')
   \<and> (case get_engine example_environment 0 (Some ''postgresql+asyncpg://localhost/orion'')
           (Some False) empty_registry of
      Inl err \<Rightarrow> False
    | Inr (e, st1) \<Rightarrow> poolclass e = None)"
proof -
  let ?m = "Some ''sqlite+aiosqlite:///:memory:''"
  let ?p = "Some ''postgresql+asyncpg://localhost/orion''"
  obtain e st1 where r: "get_engine example_environment 0 ?m (Some False) empty_registry
      = Inr (e, st1)"
    unfolding example_get_engine example_pool example_create sum.case example_new by simp
  obtain e' st1' where r': "get_engine example_environment 0 ?p (Some False) empty_registry
      = Inr (e', st1')"
    unfolding example_get_engine example_pool example_create sum.case example_new by simp
  have n: "ENGINES empty_registry (engine_key example_environment 0 u (Some False)) = None" for u
    by (simp add: empty_registry_def)
  have "poolclass e = Some ''SingletonThreadPool''"
    using pool_policy [OF r n] by (simp add: resolved_url_def startswith_def)
  moreover have "poolclass e' = None"
    using pool_policy [OF r' n] by (simp add: resolved_url_def startswith_def)
  ultimately show ?thesis using r r' by simp
qed

section \<open>Properties of the sqlite listener\<close>

lemma connect_all_spent:
  "\<not> listener_pending st \<Longrightarrow> connect_all cs st = st"
  by (induction cs arbitrary: st) (simp_all add: engine_connect_def)

lemma connect_all_first:
  "connect_all (c # cs) process_start =
     \<lparr>listener_pending = False,
      foreign_keys_on = (if backend_name c = ''sqlite'' then [dbapi_connection c] else [])\<rparr>"
  by (simp add: connect_all_spent engine_connect_def process_start_def setup_sqlite_def)

text \<open>
  Claim C8 says that foreign keys are enabled on the first connection ever opened to a
  sqlite engine and that every sqlite engine then runs with them enforced; the docstring of
  \<^verbatim>\<open>setup_sqlite\<close> says the same of the first connection. The listener fires once, for the
  first \<^verbatim>\<open>engine_connect\<close> event of any engine. When a postgresql engine connects first, the
  listener is used up and the sqlite connection that follows never has the pragma executed;
  and of two distinct sqlite connections only the first has it.
\<close>

theorem foreign_keys_missed:
  "foreign_keys_on
     (connect_all [\<lparr>backend_name = ''postgresql'', dbapi_connection = 0\<rparr>,
                   \<lparr>backend_name = ''sqlite'', dbapi_connection = 1\<rparr>] process_start) = []
   \<and> foreign_keys_on
       (connect_all [\<lparr>backend_name = ''sqlite'', dbapi_connection = 1\<rparr>,
                     \<lparr>backend_name = ''sqlite'', dbapi_connection = 2\<rparr>] process_start) = [1]"
  by (simp only: connect_all_first) simp

end
